theory Spec2Isabelle
  imports Main "HOL-Library.Word" "HOL-Library.Multiset"
begin

section \<open>Values shared by both packages\<close>

type_synonym byte = "8 word"
type_synonym uint64 = "64 word"

text \<open>
  Go's \<open>error\<close> values, as far as the two source files create or forward them:
  \<open>errors.New\<close> and \<open>fmt.Errorf\<close> carry the finished message, \<open>errors.Wrap\<close> carries its
  cause and the message put in front of it, \<open>strconv.ParseUint\<close> fails with a
  \<open>*strconv.NumError\<close> (function name, the text that was parsed, \<open>ErrSyntax\<close> or
  \<open>ErrRange\<close>), \<open>hex.DecodeString\<close> with \<open>InvalidByteError\<close> or \<open>ErrLength\<close>.
  The collaborators return values of the same type.
\<close>

datatype error =
    New string
  | Wrap error string
  | NumError string string error
  | ErrSyntax
  | ErrRange
  | InvalidByteError char
  | ErrLength

section \<open>The standard-library functions the resolver calls\<close>

subsection \<open>Package strings\<close>

definition HasPrefix :: "string \<Rightarrow> string \<Rightarrow> bool" where
  "HasPrefix s p = (length p \<le> length s \<and> take (length p) s = p)"

definition TrimPrefix :: "string \<Rightarrow> string \<Rightarrow> string" where
  "TrimPrefix s p = (if HasPrefix s p then drop (length p) s else s)"

text \<open>\<open>strings.Contains(s, substr)\<close>: \<open>substr\<close> starts at some position of \<open>s\<close>.\<close>

fun Contains :: "string \<Rightarrow> string \<Rightarrow> bool" where
  "Contains [] sub = (sub = [])"
| "Contains (c # cs) sub = (HasPrefix (c # cs) sub \<or> Contains cs sub)"

declare Contains.simps [simp del]

text \<open>
  \<open>strings.Split(s, sep)\<close> for a separator of one byte, the only use the resolver makes of
  it: cut at the first separator, keep the text before it, go on after it; the text
  after the last separator is the last part.
\<close>

function Split :: "string \<Rightarrow> char \<Rightarrow> string list" where
  "Split s sep =
     (case dropWhile (\<lambda>c. c \<noteq> sep) s of
        [] \<Rightarrow> [s]
      | _ # rest \<Rightarrow> takeWhile (\<lambda>c. c \<noteq> sep) s # Split rest sep)"
  by pat_completeness auto
termination
proof (relation "measure (\<lambda>(s, sep). length s)")
  show "wf (measure (\<lambda>(s, sep). length s))" by simp
next
  fix s :: string and sep x21 x22
  assume "dropWhile (\<lambda>c. c \<noteq> sep) s = x21 # x22"
  then have "length (x21 # x22) \<le> length s"
    by (metis length_dropWhile_le)
  then show "((x22, sep), (s, sep)) \<in> measure (\<lambda>(s, sep). length s)"
    by simp
qed

declare Split.simps [simp del]

subsection \<open>Package strconv\<close>

text \<open>
  \<open>strconv.ParseUint(s, 10, 64)\<close>. The loop reads the bytes from the left with the value
  so far in a \<open>uint64\<close>; a byte that is no decimal digit is a syntax error, a value that
  leaves 64 bits a range error, whichever the loop meets first.
  \<open>cutoff\<close> is \<open>maxUint64/10 + 1\<close>.
\<close>

definition isDigit :: "char \<Rightarrow> bool" where
  "isDigit c = (48 \<le> (of_char c :: nat) \<and> (of_char c :: nat) \<le> 57)"

definition cutoff :: uint64 where
  "cutoff = 1844674407370955162"

fun ParseUint_loop :: "string \<Rightarrow> uint64 \<Rightarrow> error + uint64" where
  "ParseUint_loop [] n = Inr n"
| "ParseUint_loop (c # cs) n =
     (if \<not> isDigit c then Inl ErrSyntax
      else if cutoff \<le> n then Inl ErrRange
      else (let n10 = n * 10; n1 = n10 + of_nat (of_char c - 48)
            in if n1 < n10 then Inl ErrRange else ParseUint_loop cs n1))"

definition ParseUint :: "string \<Rightarrow> error + uint64" where
  "ParseUint s =
     (if s = [] then Inl (NumError ''ParseUint'' s ErrSyntax)
      else (case ParseUint_loop s 0 of
              Inl e \<Rightarrow> Inl (NumError ''ParseUint'' s e)
            | Inr n \<Rightarrow> Inr n))"

subsection \<open>Package encoding/hex\<close>

text \<open>
  \<open>hex.DecodeString\<close>: two hex digits (either case) give one byte; the first byte that is
  no hex digit is reported, an odd number of digits is \<open>ErrLength\<close>.
\<close>

definition fromHexChar :: "char \<Rightarrow> byte option" where
  "fromHexChar c =
     (let n = (of_char c :: nat) in
      if 48 \<le> n \<and> n \<le> 57 then Some (of_nat (n - 48))
      else if 97 \<le> n \<and> n \<le> 102 then Some (of_nat (n - 87))
      else if 65 \<le> n \<and> n \<le> 70 then Some (of_nat (n - 55))
      else None)"

fun DecodeString :: "string \<Rightarrow> error + byte list" where
  "DecodeString [] = Inr []"
| "DecodeString [p] =
     (case fromHexChar p of None \<Rightarrow> Inl (InvalidByteError p) | Some a \<Rightarrow> Inl ErrLength)"
| "DecodeString (p # q # rest) =
     (case fromHexChar p of
        None \<Rightarrow> Inl (InvalidByteError p)
      | Some a \<Rightarrow>
          (case fromHexChar q of
             None \<Rightarrow> Inl (InvalidByteError q)
           | Some b \<Rightarrow>
               (case DecodeString rest of
                  Inl e \<Rightarrow> Inl e
                | Inr bs \<Rightarrow> Inr ((a * 16 + b) # bs))))"

subsection \<open>Built-ins: copy, and range over a map\<close>

text \<open>\<open>copy(dst, src)\<close> overwrites the first \<open>min(len(dst), len(src))\<close> elements of \<open>dst\<close>.\<close>

definition copy :: "'a list \<Rightarrow> 'a list \<Rightarrow> 'a list" where
  "copy dst src =
     (let n = min (length dst) (length src) in take n src @ drop n dst)"

text \<open>
  A \<open>range\<close> statement over a map visits every entry once, in an order the language
  leaves open and the runtime draws anew for each statement. The entries of a map are a
  list here (the keys are distinct), and the order of one \<open>range\<close> statement is chosen by
  a number: \<open>seed mod n\<close> picks the first entry visited among the \<open>n\<close> there are, the rest
  of the number orders the remaining entries the same way. Every order is the choice of
  some number.
\<close>

function map_order :: "nat \<Rightarrow> 'a list \<Rightarrow> 'a list" where
  "map_order seed [] = []"
| "map_order seed (x # xs) =
     (let n = Suc (length xs); i = seed mod n
      in (x # xs) ! i # map_order (seed div n) (take i (x # xs) @ drop (Suc i) (x # xs)))"
  by pat_completeness auto
termination
  by (relation "measure (\<lambda>(seed, xs). length xs)") auto

declare map_order.simps(2) [simp del]

subsection \<open>The loop that builds the indices of a range\<close>

text \<open>
  \<open>for index := low; index <= high; index++ { indices = append(indices, index) }\<close>
  on \<open>uint64\<close>: \<open>index++\<close> wraps around, so the loop may never end; \<open>None\<close> is that case.
\<close>

partial_function (option) range_indices :: "uint64 \<Rightarrow> uint64 \<Rightarrow> uint64 list \<Rightarrow> uint64 list option" where
  "range_indices index high indices =
     (if index \<le> high then range_indices (index + 1) high (indices @ [index])
      else Some indices)"

declare range_indices.simps [code]


section \<open>Package util: the validator resolver\<close>

subsection \<open>Data and collaborators\<close>

type_synonym ValidatorIndex = uint64
type_synonym BLSPubKey = "byte list"

text \<open>
  A \<open>*apiv1.Validator\<close> is a pointer: \<open>None\<close> is \<open>nil\<close>. The resolver never looks inside the
  record, which is a type variable. A value of type
  \<open>map[phase0.ValidatorIndex]*apiv1.Validator\<close> is the list of its entries.
\<close>

type_synonym 'v ptr = "'v option"
type_synonym 'v validators_map = "(ValidatorIndex \<times> 'v ptr) list"

text \<open>
  What the resolver asks of the outside world. The two methods of
  \<open>eth2client.ValidatorsProvider\<close> and \<open>WalletAndAccountFromPath\<close> read a state \<open>'p\<close> the
  resolver cannot see (the network, the wallet store, the context's deadline) and may
  change it; each returns its value or its error. \<open>BestPublicKey\<close> and the key's
  \<open>Marshal\<close> compute on the account they are given. The context \<open>ctx\<close> is handed on
  unchanged to every call and is part of that state.
\<close>

record ('p, 'v, 'a, 'k) collaborators =
  Validators :: "'p \<Rightarrow> string \<Rightarrow> ValidatorIndex list \<Rightarrow> (error + 'v validators_map) \<times> 'p"
  ValidatorsByPubKey :: "'p \<Rightarrow> string \<Rightarrow> BLSPubKey list \<Rightarrow> (error + 'v validators_map) \<times> 'p"
  WalletAndAccountFromPath :: "'p \<Rightarrow> string \<Rightarrow> (error + 'a) \<times> 'p"
  BestPublicKey :: "'a \<Rightarrow> error + 'k"
  Marshal :: "'k \<Rightarrow> byte list"

text \<open>The calls the resolver makes, as they are logged: the method and its arguments.\<close>

datatype call =
    IndexLookup string "ValidatorIndex list"
  | PubKeyLookup string "BLSPubKey list"
  | AccountLookup string

text \<open>
  The state a run threads through: the log of the calls made so far (oldest first), the
  collaborators' state, and the runtime's source of map iteration orders (\<open>rand w n\<close>
  orders the \<open>n\<close>-th \<open>range\<close> statement over a map, \<open>iters\<close> counts them).
\<close>

record 'p world =
  calls :: "call list"
  pstate :: 'p
  rand :: "nat \<Rightarrow> nat"
  iters :: nat

definition call_Validators ::
  "('p, 'v, 'a, 'k) collaborators \<Rightarrow> string \<Rightarrow> ValidatorIndex list \<Rightarrow> 'p world
     \<Rightarrow> (error + 'v validators_map) \<times> 'p world" where
  "call_Validators c stateID indices w =
     (let (r, p) = Validators c (pstate w) stateID indices
      in (r, w\<lparr>calls := calls w @ [IndexLookup stateID indices], pstate := p\<rparr>))"

definition call_ValidatorsByPubKey ::
  "('p, 'v, 'a, 'k) collaborators \<Rightarrow> string \<Rightarrow> BLSPubKey list \<Rightarrow> 'p world
     \<Rightarrow> (error + 'v validators_map) \<times> 'p world" where
  "call_ValidatorsByPubKey c stateID keys w =
     (let (r, p) = ValidatorsByPubKey c (pstate w) stateID keys
      in (r, w\<lparr>calls := calls w @ [PubKeyLookup stateID keys], pstate := p\<rparr>))"

definition call_WalletAndAccountFromPath ::
  "('p, 'v, 'a, 'k) collaborators \<Rightarrow> string \<Rightarrow> 'p world \<Rightarrow> (error + 'a) \<times> 'p world" where
  "call_WalletAndAccountFromPath c path w =
     (let (r, p) = WalletAndAccountFromPath c (pstate w) path
      in (r, w\<lparr>calls := calls w @ [AccountLookup path], pstate := p\<rparr>))"

definition range_map :: "'v validators_map \<Rightarrow> 'p world \<Rightarrow> 'v validators_map \<times> 'p world" where
  "range_map m w = (map_order (rand w (iters w)) m, w\<lparr>iters := Suc (iters w)\<rparr>)"

subsection \<open>ParseValidator\<close>

text \<open>
  A Go function returning \<open>(*apiv1.Validator, error)\<close> returns a pair here: the pointer
  and \<open>None\<close> for a \<open>nil\<close> error.

  The statements after the \<open>switch\<close>:
  \<open>for _, validator := range validators { return validator, nil }\<close> and then
  \<open>return nil, errors.New("unknown validator")\<close>.
\<close>

definition first_entry :: "'v validators_map \<Rightarrow> 'p world \<Rightarrow> ('v ptr \<times> error option) \<times> 'p world" where
  "first_entry validators w =
     (case range_map validators w of
        ([], w') \<Rightarrow> ((None, Some (New ''unknown validator'')), w')
      | ((index, validator) # _, w') \<Rightarrow> ((validator, None), w'))"

definition emptyBLSPubKey :: BLSPubKey where
  "emptyBLSPubKey = replicate 48 0"

text \<open>
  The \<open>switch\<close> statement: each case either leaves the function with an error (\<open>Inl\<close>) or
  assigns the variable \<open>validators\<close> (\<open>Inr\<close>).
\<close>

definition ParseValidator_switch ::
  "('p, 'v, 'a, 'k) collaborators \<Rightarrow> string \<Rightarrow> string \<Rightarrow> 'p world
     \<Rightarrow> (error + 'v validators_map) \<times> 'p world" where
  "ParseValidator_switch c validatorStr stateID w =
     (if HasPrefix validatorStr ''0x'' then
        (case DecodeString (TrimPrefix validatorStr ''0x'') of
           Inl err \<Rightarrow> (Inl (Wrap err ''failed to parse validator public key''), w)
         | Inr data \<Rightarrow>
             (let pubKey = copy emptyBLSPubKey data in
              (case call_ValidatorsByPubKey c stateID [pubKey] w of
                 (Inl err, w1) \<Rightarrow> (Inl (Wrap err ''failed to obtain validator information''), w1)
               | (Inr validators, w1) \<Rightarrow> (Inr validators, w1))))
      else if Contains validatorStr ''/'' then
        (case call_WalletAndAccountFromPath c validatorStr w of
           (Inl err, w1) \<Rightarrow> (Inl (Wrap err ''unable to obtain account''), w1)
         | (Inr account, w1) \<Rightarrow>
             (case BestPublicKey c account of
                Inl err \<Rightarrow> (Inl (Wrap err ''unable to obtain public key for account''), w1)
              | Inr accPubKey \<Rightarrow>
                  (let pubKey = copy emptyBLSPubKey (Marshal c accPubKey) in
                   (case call_ValidatorsByPubKey c stateID [pubKey] w1 of
                      (Inl err, w2) \<Rightarrow>
                        (Inl (Wrap err ''failed to obtain validator information''), w2)
                    | (Inr validators, w2) \<Rightarrow> (Inr validators, w2)))))
      else
        (case ParseUint validatorStr of
           Inl err \<Rightarrow> (Inl (Wrap err ''failed to parse validator index''), w)
         | Inr index \<Rightarrow>
             (case call_Validators c stateID [index] w of
                (Inl err, w1) \<Rightarrow> (Inl (Wrap err ''failed to obtain validator information''), w1)
              | (Inr validators, w1) \<Rightarrow> (Inr validators, w1))))"

definition ParseValidator ::
  "('p, 'v, 'a, 'k) collaborators \<Rightarrow> string \<Rightarrow> string \<Rightarrow> 'p world
     \<Rightarrow> ('v ptr \<times> error option) \<times> 'p world" where
  "ParseValidator c validatorStr stateID w =
     (case ParseValidator_switch c validatorStr stateID w of
        (Inl err, w1) \<Rightarrow> ((None, Some err), w1)
      | (Inr validators, w1) \<Rightarrow> first_entry validators w1)"

subsection \<open>ParseValidators\<close>

text \<open>
  The body of the loop \<open>for i := range validatorsStr\<close> for the element \<open>s\<close>: it either
  leaves the function with an error (\<open>Inl\<close>), or appends records to the slice
  \<open>validators\<close> (\<open>Inr\<close>, the records it appends, in the order it appends them), or never
  finishes (\<open>None\<close>). The inner loop over \<open>rangeValidators\<close> appends the record of every
  entry in the order the \<open>range\<close> statement visits them.
\<close>

definition ParseValidators_body ::
  "('p, 'v, 'a, 'k) collaborators \<Rightarrow> string \<Rightarrow> string \<Rightarrow> 'p world
     \<Rightarrow> ((error + 'v ptr list) \<times> 'p world) option" where
  "ParseValidators_body c stateID s w =
     (if Contains s ''-'' then
        (let bits = Split s CHR ''-'' in
         if length bits \<noteq> 2 then Some (Inl (New (''invalid range '' @ s)), w)
         else
           (case ParseUint (bits ! 0) of
              Inl err \<Rightarrow> Some (Inl (Wrap err ''invalid range start''), w)
            | Inr low \<Rightarrow>
                (case ParseUint (bits ! 1) of
                   Inl err \<Rightarrow> Some (Inl (Wrap err ''invalid range end''), w)
                 | Inr high \<Rightarrow>
                     (case range_indices low high [] of
                        None \<Rightarrow> None
                      | Some indices \<Rightarrow>
                          (case call_Validators c stateID indices w of
                             (Inl err, w1) \<Rightarrow>
                               Some (Inl (Wrap err (''failed to obtain validators '' @ s)), w1)
                           | (Inr rangeValidators, w1) \<Rightarrow>
                               (case range_map rangeValidators w1 of
                                  (entries, w2) \<Rightarrow> Some (Inr (map snd entries), w2)))))))
      else
        (case ParseValidator c s stateID w of
           ((validator, Some err), w1) \<Rightarrow>
             Some (Inl (Wrap err (''unknown validator '' @ s)), w1)
         | ((validator, None), w1) \<Rightarrow> Some (Inr [validator], w1)))"

text \<open>
  The result \<open>([]*apiv1.Validator, error)\<close> is a pair of the slice (\<open>None\<close> is the \<open>nil\<close>
  slice) and the error; the whole is \<open>None\<close> when the call does not return.
  \<open>ParseValidators_loop\<close> is the loop from some element on, with the slice \<open>validators\<close>
  built so far.
\<close>

type_synonym ('v, 'p) result = "(('v ptr list option \<times> error option) \<times> 'p world) option"

fun ParseValidators_loop ::
  "('p, 'v, 'a, 'k) collaborators \<Rightarrow> string \<Rightarrow> string list \<Rightarrow> 'v ptr list \<Rightarrow> 'p world
     \<Rightarrow> ('v, 'p) result" where
  "ParseValidators_loop c stateID [] validators w = Some ((Some validators, None), w)"
| "ParseValidators_loop c stateID (s # rest) validators w =
     (case ParseValidators_body c stateID s w of
        None \<Rightarrow> None
      | Some (Inl err, w1) \<Rightarrow> Some ((None, Some err), w1)
      | Some (Inr found, w1) \<Rightarrow> ParseValidators_loop c stateID rest (validators @ found) w1)"

definition ParseValidators ::
  "('p, 'v, 'a, 'k) collaborators \<Rightarrow> string list \<Rightarrow> string \<Rightarrow> 'p world \<Rightarrow> ('v, 'p) result" where
  "ParseValidators c validatorsStr stateID w = ParseValidators_loop c stateID validatorsStr [] w"

text \<open>
  The loop as the source writes it, by index over the caller's slice \<open>validatorsStr\<close>,
  from the index \<open>i\<close> on: what the function returns, and with it the contents of the slice
  at that moment.
\<close>

function ParseValidators_indexed ::
  "('p, 'v, 'a, 'k) collaborators \<Rightarrow> string \<Rightarrow> string list \<Rightarrow> nat \<Rightarrow> 'v ptr list \<Rightarrow> 'p world
     \<Rightarrow> ((('v ptr list option \<times> error option) \<times> 'p world) \<times> string list) option" where
  "ParseValidators_indexed c stateID validatorsStr i validators w =
     (if i < length validatorsStr then
        (case ParseValidators_body c stateID (validatorsStr ! i) w of
           None \<Rightarrow> None
         | Some (Inl err, w1) \<Rightarrow> Some (((None, Some err), w1), validatorsStr)
         | Some (Inr found, w1) \<Rightarrow>
             ParseValidators_indexed c stateID validatorsStr (Suc i) (validators @ found) w1)
      else Some (((Some validators, None), w), validatorsStr))"
  by pat_completeness auto
termination
  by (relation "measure (\<lambda>(c, stateID, validatorsStr, i, validators, w). length validatorsStr - i)")
    auto

declare ParseValidators_indexed.simps [simp del]

subsection \<open>What an error says\<close>



subsection \<open>The collections a run iterates\<close>

text \<open>
  The part of the loop body that comes before a map is iterated: the identifier is
  parsed and looked up. The result is the error with which the body leaves the function
  at that point, or the collection the body goes on to iterate.
  \<open>ParseValidators_body_lookup\<close> shows that the body is this lookup followed by the
  iteration.
\<close>

definition ParseValidators_lookup ::
  "('p, 'v, 'a, 'k) collaborators \<Rightarrow> string \<Rightarrow> string \<Rightarrow> 'p world
     \<Rightarrow> ((error + 'v validators_map) \<times> 'p world) option" where
  "ParseValidators_lookup c stateID s w =
     (if Contains s ''-'' then
        (let bits = Split s CHR ''-'' in
         if length bits \<noteq> 2 then Some (Inl (New (''invalid range '' @ s)), w)
         else
           (case ParseUint (bits ! 0) of
              Inl err \<Rightarrow> Some (Inl (Wrap err ''invalid range start''), w)
            | Inr low \<Rightarrow>
                (case ParseUint (bits ! 1) of
                   Inl err \<Rightarrow> Some (Inl (Wrap err ''invalid range end''), w)
                 | Inr high \<Rightarrow>
                     (case range_indices low high [] of
                        None \<Rightarrow> None
                      | Some indices \<Rightarrow>
                          (case call_Validators c stateID indices w of
                             (Inl err, w1) \<Rightarrow>
                               Some (Inl (Wrap err (''failed to obtain validators '' @ s)), w1)
                           | (Inr rangeValidators, w1) \<Rightarrow> Some (Inr rangeValidators, w1))))))
      else
        (case ParseValidator_switch c s stateID w of
           (Inl err, w1) \<Rightarrow> Some (Inl (Wrap err (''unknown validator '' @ s)), w1)
         | (Inr validators, w1) \<Rightarrow> Some (Inr validators, w1)))"

text \<open>
  For a run from \<open>w\<close>: the identifiers that are resolved, each with the collection its
  lookup returned. The order of iteration plays no part in it.
\<close>

fun ParseValidators_answers ::
  "('p, 'v, 'a, 'k) collaborators \<Rightarrow> string \<Rightarrow> string list \<Rightarrow> 'p world
     \<Rightarrow> (string \<times> 'v validators_map) list" where
  "ParseValidators_answers c stateID [] w = []"
| "ParseValidators_answers c stateID (s # rest) w =
     (case ParseValidators_lookup c stateID s w of
        None \<Rightarrow> []
      | Some (Inl err, w1) \<Rightarrow> []
      | Some (Inr m, w1) \<Rightarrow>
          (if \<not> Contains s ''-'' \<and> m = [] then []
           else (s, m) # ParseValidators_answers c stateID rest (w1\<lparr>iters := Suc (iters w1)\<rparr>)))"

text \<open>
  What an identifier can contribute from its collection: a range the records of all
  entries, in any order; any other identifier the record of one entry.
\<close>

definition drawn_from :: "string \<times> 'v validators_map \<Rightarrow> 'v ptr list \<Rightarrow> bool" where
  "drawn_from a found =
     (case a of (s, m) \<Rightarrow>
        if Contains s ''-'' then mset found = mset (map snd m)
        else list_ex (\<lambda>e. found = [snd e]) m)"

section \<open>Package walletsharedimport: the input collector\<close>

text \<open>
  \<open>time.Duration\<close> is an \<open>int64\<close>. The configuration (package viper) is read through its
  getters, the file through \<open>os.ReadFile\<close>; both are given to the model.
\<close>

type_synonym Duration = "64 word"

record dataIn =
  timeout :: Duration
  quiet :: bool
  verbose :: bool
  debug :: bool
  "file" :: "byte list"
  shares :: "string list"

record viper =
  GetString :: "string \<Rightarrow> string"
  GetDuration :: "string \<Rightarrow> Duration"
  GetBool :: "string \<Rightarrow> bool"
  GetStringSlice :: "string \<Rightarrow> string list"

definition zero_dataIn :: dataIn where
  "zero_dataIn = \<lparr>timeout = 0, quiet = False, verbose = False, debug = False, file = [], shares = []\<rparr>"

definition input :: "viper \<Rightarrow> (string \<Rightarrow> error + byte list) \<Rightarrow> dataIn option \<times> error option" where
  "input v ReadFile =
     (let data = zero_dataIn in
      if GetString v ''remote'' \<noteq> [] then
        (None, Some (New ''wallet import not available for remote wallets''))
      else if GetDuration v ''timeout'' = 0 then (None, Some (New ''timeout is required''))
      else
        (let data = data\<lparr>timeout := GetDuration v ''timeout''\<rparr>;
             data = data\<lparr>quiet := GetBool v ''quiet''\<rparr>;
             data = data\<lparr>verbose := GetBool v ''verbose''\<rparr>;
             data = data\<lparr>debug := GetBool v ''debug''\<rparr>
         in if GetString v ''file'' = [] then (None, Some (New ''file is required''))
            else
              (case ReadFile (GetString v ''file'') of
                 Inl err \<Rightarrow> (None, Some (Wrap err ''failed to read wallet import file''))
               | Inr contents \<Rightarrow>
                   (let data = data\<lparr>file := contents\<rparr>;
                        data = data\<lparr>shares := GetStringSlice v ''shares''\<rparr>
                    in if length (shares data) = 0 then
                         (None, Some (New ''failed to obtain shares''))
                       else (Some data, None)))))"

section \<open>Collaborators for the examples\<close>

text \<open>
  A beacon node that counts the requests it has served. It knows three validators,
  none yet in the state \<open>''genesis''\<close>, and does not know the state \<open>''gone''\<close>. As the
  client library does, a lookup with no index (or no key) is not filtered: it returns
  every validator of the state.
\<close>

definition node_key :: "nat \<Rightarrow> BLSPubKey" where
  "node_key i = replicate 47 0 @ [of_nat i]"

definition node_table :: "string \<Rightarrow> (ValidatorIndex \<times> BLSPubKey \<times> nat ptr) list" where
  "node_table stateID =
     (if stateID = ''genesis'' then []
      else [(1, node_key 1, Some 101), (2, node_key 2, Some 102), (3, node_key 3, Some 103)])"

definition node :: "(nat, nat, nat, nat) collaborators" where
  "node =
     \<lparr>Validators = (\<lambda>p stateID indices.
        (if stateID = ''gone'' then Inl (New ''state not found'')
         else Inr (map (\<lambda>(i, k, v). (i, v))
                (filter (\<lambda>(i, k, v). indices = [] \<or> i \<in> set indices) (node_table stateID))),
         Suc p)),
      ValidatorsByPubKey = (\<lambda>p stateID keys.
        (if stateID = ''gone'' then Inl (New ''state not found'')
         else Inr (map (\<lambda>(i, k, v). (i, v))
                (filter (\<lambda>(i, k, v). keys = [] \<or> k \<in> set keys) (node_table stateID))),
         Suc p)),
      WalletAndAccountFromPath = (\<lambda>p path.
        (if path = ''wallet/two'' then Inr 2 else Inl (New ''account not found''), p)),
      BestPublicKey = (\<lambda>account. Inr account),
      Marshal = node_key\<rparr>"

text \<open>A node that knows one validator: no lookup returns more than one entry.\<close>

definition solo :: "(nat, nat, nat, nat) collaborators" where
  "solo = node
     \<lparr>Validators := (\<lambda>p stateID indices.
        (Inr (if indices = [] \<or> 1 \<in> set indices then [(1, Some 101)] else []), Suc p)),
      ValidatorsByPubKey := (\<lambda>p stateID keys.
        (Inr (if keys = [] \<or> node_key 1 \<in> set keys then [(1, Some 101)] else []), Suc p))\<rparr>"

definition world0 :: "nat \<Rightarrow> nat world" where
  "world0 seed = \<lparr>calls = [], pstate = 0, rand = (\<lambda>n. seed), iters = 0\<rparr>"

definition viper0 :: viper where
  "viper0 =
     \<lparr>GetString = (\<lambda>k. if k = ''file'' then ''wallet.dat'' else []),
      GetDuration = (\<lambda>k. if k = ''timeout'' then 30000000000 else 0),
      GetBool = (\<lambda>k. k = ''verbose''),
      GetStringSlice = (\<lambda>k. if k = ''shares'' then [''share1'', ''share2''] else [])\<rparr>"

definition files0 :: "string \<Rightarrow> error + byte list" where
  "files0 name = (if name = ''wallet.dat'' then Inr [1, 2, 3] else Inl (New ''no such file''))"

section \<open>Facts about the library functions\<close>

lemma Contains_single: "Contains s [c] = (c \<in> set s)"
  by (induction s) (auto simp: Contains.simps HasPrefix_def)

lemma Split_no_sep: "sep \<notin> set s \<Longrightarrow> Split s sep = [s]"
proof -
  assume "sep \<notin> set s"
  then have h: "dropWhile (\<lambda>c. c \<noteq> sep) s = []" by auto
  show ?thesis by (subst Split.simps) (simp only: h list.case)
qed

lemma Split_at_sep: "sep \<notin> set a \<Longrightarrow> Split (a @ sep # b) sep = a # Split b sep"
proof -
  assume a: "sep \<notin> set a"
  then have "dropWhile (\<lambda>c. c \<noteq> sep) (a @ sep # b) = sep # b"
    by (auto simp: dropWhile_append3)
  moreover from a have "takeWhile (\<lambda>c. c \<noteq> sep) (a @ sep # b) = a"
    by (auto simp: takeWhile_tail)
  ultimately show ?thesis by (subst Split.simps) simp
qed

lemma Split_two: "sep \<notin> set a \<Longrightarrow> sep \<notin> set b \<Longrightarrow> Split (a @ sep # b) sep = [a, b]"
  by (simp add: Split_at_sep Split_no_sep)

lemma length_Split: "length (Split s sep) = Suc (count_list s sep)"
proof (induction s sep rule: Split.induct)
  case (1 s sep)
  let ?P = "\<lambda>c. c \<noteq> sep"
  show ?case
  proof (cases "dropWhile ?P s")
    case Nil
    then have "\<forall>x\<in>set s. x \<noteq> sep" by (simp only: dropWhile_eq_Nil_conv)
    then have "sep \<notin> set s" by blast
    then show ?thesis by (simp add: Split_no_sep)
  next
    case (Cons x rest)
    have "\<not> ?P (hd (dropWhile ?P s))"
      by (rule hd_dropWhile) (simp add: Cons)
    then have x: "x = sep" by (simp add: Cons)
    have "takeWhile ?P s @ dropWhile ?P s = s" by (rule takeWhile_dropWhile_id)
    then have s: "s = takeWhile ?P s @ sep # rest" by (simp add: Cons x)
    have notin: "sep \<notin> set (takeWhile ?P s)"
      using set_takeWhileD [of sep ?P s] by blast
    have "count_list s sep = count_list (takeWhile ?P s @ sep # rest) sep"
      by (subst s) (rule refl)
    also have "\<dots> = Suc (count_list rest sep)"
      using notin by (simp add: count_list_0_iff)
    finally have cnt: "count_list s sep = Suc (count_list rest sep)" .
    have "Split s sep = takeWhile ?P s # Split rest sep"
      by (subst Split.simps) (simp add: Cons)
    with 1 [OF Cons] cnt show ?thesis by simp
  qed
qed

lemmas ParseUint_eval =
  ParseUint_def isDigit_def cutoff_def Let_def word_le_nat_alt word_less_nat_alt

lemma ParseUint_loop_nondigit:
  "list_ex (\<lambda>c. \<not> isDigit c) s \<Longrightarrow> \<exists>e. ParseUint_loop s n = Inl e"
  by (induction s arbitrary: n) (auto simp: Let_def)

lemma ParseUint_nondigit:
  "s = [] \<or> list_ex (\<lambda>c. \<not> isDigit c) s \<Longrightarrow> \<exists>e. ParseUint s = Inl (NumError ''ParseUint'' s e)"
proof (cases "s = []")
  case True then show ?thesis by (simp add: ParseUint_def)
next
  case False
  assume "s = [] \<or> list_ex (\<lambda>c. \<not> isDigit c) s"
  with False obtain e where "ParseUint_loop s 0 = Inl e"
    using ParseUint_loop_nondigit by blast
  with False show ?thesis by (simp add: ParseUint_def)
qed

lemma ParseUint_loop_value:
  "ParseUint_loop s n = Inr m \<Longrightarrow>
     list_all isDigit s \<and> unat m = foldl (\<lambda>a c. 10 * a + (of_char c - 48)) (unat n) s"
proof (induction s arbitrary: n)
  case Nil
  then show ?case by simp
next
  case (Cons c cs)
  let ?d = "of_char c - 48 :: nat"
  let ?n10 = "n * 10"
  let ?n1 = "?n10 + of_nat ?d"
  from Cons.prems have dig: "isDigit c" and cut: "\<not> cutoff \<le> n" and ov: "\<not> ?n1 < ?n10"
    and rest: "ParseUint_loop cs ?n1 = Inr m"
    by (auto simp: Let_def split: if_splits)
  from dig have d: "?d < 10" by (auto simp: isDigit_def)
  from cut have "unat n < 1844674407370955162"
    by (simp add: cutoff_def word_le_nat_alt not_le)
  then have "unat n * unat (10 :: uint64) < 2 ^ LENGTH(64)" by simp
  then have u10: "unat ?n10 = unat n * 10"
    by (simp add: unat_mult_lem [THEN iffD1])
  from d have ud: "unat (of_nat ?d :: uint64) = ?d"
    by (simp add: unat_of_nat take_bit_nat_eq_self)
  from ov have "?n10 \<le> ?n10 + of_nat ?d" by (simp add: not_less)
  then have "unat ?n1 = unat ?n10 + unat (of_nat ?d :: uint64)"
    by (simp only: unat_plus_simple)
  with u10 ud have u1: "unat ?n1 = 10 * unat n + ?d" by simp
  from Cons.IH [OF rest] dig u1 show ?case by simp
qed

lemma ParseUint_value:
  "ParseUint s = Inr m \<Longrightarrow>
     s \<noteq> [] \<and> list_all isDigit s \<and> unat m = foldl (\<lambda>a c. 10 * a + (of_char c - 48)) 0 s"
  using ParseUint_loop_value [of s 0 m]
  by (auto simp: ParseUint_def split: if_splits sum.splits)

lemma DecodeString_hex:
  "DecodeString s = Inr bs \<Longrightarrow> even (length s) \<and> \<not> list_ex (\<lambda>c. fromHexChar c = None) s"
  by (induction s arbitrary: bs rule: DecodeString.induct) (auto split: option.splits sum.splits)

lemma DecodeString_not_hex:
  "odd (length s) \<or> list_ex (\<lambda>c. fromHexChar c = None) s \<Longrightarrow> \<exists>e. DecodeString s = Inl e"
  using DecodeString_hex [of s] by (cases "DecodeString s") auto

lemma DecodeString_length: "DecodeString s = Inr bs \<Longrightarrow> length s = 2 * length bs"
  by (induction s arbitrary: bs rule: DecodeString.induct) (auto split: option.splits sum.splits)


lemma copy_short:
  "length src \<le> length dst \<Longrightarrow> copy dst src = src @ drop (length src) dst"
  by (simp add: copy_def min_def)

lemma copy_long:
  "length dst \<le> length src \<Longrightarrow> copy dst src = take (length dst) src"
  by (simp add: copy_def min_def)

lemma mset_map_order: "mset (map_order seed xs) = mset xs"
proof (induction seed xs rule: map_order.induct)
  case (1 seed) show ?case by simp
next
  case (2 seed x xs)
  define ys where "ys = x # xs"
  define i where "i = seed mod Suc (length xs)"
  have i: "i < length ys" by (simp add: i_def ys_def)
  have IH: "mset (map_order (seed div Suc (length xs)) (take i ys @ drop (Suc i) ys)) =
      mset (take i ys @ drop (Suc i) ys)"
    using 2 [OF refl refl] by (simp only: i_def ys_def)
  have "map_order seed ys = ys ! i # map_order (seed div Suc (length xs)) (take i ys @ drop (Suc i) ys)"
    by (simp only: ys_def i_def map_order.simps(2) Let_def)
  then have "mset (map_order seed ys) = {#ys ! i#} + mset (take i ys @ drop (Suc i) ys)"
    using IH by simp
  also have "\<dots> = mset (take i ys @ ys ! i # drop (Suc i) ys)" by simp
  also have "\<dots> = mset ys" using id_take_nth_drop [OF i] by simp
  finally show ?case by (simp only: ys_def)
qed

lemma length_map_order: "length (map_order seed xs) = length xs"
  by (metis mset_map_order size_mset)

lemma set_map_order: "set (map_order seed xs) = set xs"
  by (metis mset_map_order set_mset_mset)

lemma map_order_Nil_iff: "map_order seed xs = [] \<longleftrightarrow> xs = []"
  by (metis length_map_order length_0_conv)

lemma hd_map_order: "xs \<noteq> [] \<Longrightarrow> hd (map_order seed xs) = xs ! (seed mod length xs)"
  by (cases xs) (simp_all add: map_order.simps(2) Let_def)

subsection \<open>The index loop\<close>

lemma range_indices_Some_not_max:
  assumes "range_indices index high indices = Some r"
  shows "high \<noteq> -1"
proof (rule range_indices.raw_induct [where P = "\<lambda>i h xs r. h \<noteq> -1", OF _ assms])
  fix f :: "uint64 \<Rightarrow> uint64 \<Rightarrow> uint64 list \<Rightarrow> uint64 list option"
  fix i h :: "uint64" and xs r :: "uint64 list"
  assume IH: "\<And>i h xs r. f i h xs = Some r \<Longrightarrow> h \<noteq> -1"
    and step: "(if i \<le> h then f (i + 1) h (xs @ [i]) else Some xs) = Some r"
  show "h \<noteq> -1"
  proof (cases "i \<le> h")
    case True
    with step have "f (i + 1) h (xs @ [i]) = Some r" by simp
    then show ?thesis by (rule IH)
  next
    case False
    then show ?thesis by auto
  qed
qed

lemma range_indices_diverges: "range_indices index (-1) indices = None"
  using range_indices_Some_not_max [of index "-1" indices]
  by (cases "range_indices index (-1) indices") auto

lemma range_indices_returns:
  "high \<noteq> -1 \<Longrightarrow> range_indices index high indices =
     Some (indices @ map of_nat [unat index ..< Suc (unat high)])"
proof (induction "Suc (unat high) - unat index" arbitrary: index indices)
  case 0
  then have "\<not> index \<le> high" by (simp add: word_le_nat_alt)
  with 0 show ?case by (subst range_indices.simps) simp
next
  case (Suc k)
  then have le: "index \<le> high" by (simp add: word_le_nat_alt)
  with Suc.prems have "index \<noteq> -1" by (metis word_order.extremum_unique)
  then have "1 + index \<noteq> 0"
    by (metis add_eq_0_iff)
  then have "unat (1 + index) = Suc (unat index)"
    by (rule unatSuc)
  then have step: "unat (index + 1) = Suc (unat index)"
    by (simp add: add.commute)
  with Suc.hyps(2) have "k = Suc (unat high) - unat (index + 1)" by simp
  from Suc.hyps(1) [OF this Suc.prems, of "indices @ [index]"] step
  have "range_indices (index + 1) high (indices @ [index]) =
          Some (indices @ index # map of_nat [Suc (unat index) ..< Suc (unat high)])"
    by simp
  moreover from le have "[unat index ..< Suc (unat high)] =
      unat index # [Suc (unat index) ..< Suc (unat high)]"
    by (simp add: word_le_nat_alt upt_conv_Cons)
  ultimately show ?case using le
    by (subst range_indices.simps) simp
qed

lemma range_indices_empty:
  assumes "high < low"
  shows "range_indices low high [] = Some []"
proof -
  from assms have "\<not> low \<le> high" by (simp add: not_le)
  then show ?thesis by (subst range_indices.simps) simp
qed

lemma range_indices_inclusive:
  assumes "high \<noteq> -1"
  shows "\<exists>indices. range_indices low high [] = Some indices \<and> set indices = {low..high}
           \<and> distinct indices \<and> sorted indices"
proof -
  let ?ns = "[unat low ..< Suc (unat high)]"
  let ?xs = "map of_nat ?ns :: uint64 list"
  have r: "range_indices low high [] = Some ?xs"
    using range_indices_returns [OF assms, of low "[]"] by simp
  have bound: "n < 2 ^ 64" if "n \<in> set ?ns" for n
  proof -
    have "unat high < 2 ^ 64" using unsigned_less [of high] by simp
    with that show ?thesis by auto
  qed
  have un: "unat (of_nat n :: uint64) = n" if "n \<in> set ?ns" for n
    using bound [OF that] by (simp add: unat_of_nat take_bit_nat_eq_self)
  have "set ?xs = {low..high}"
  proof (rule set_eqI)
    fix x :: "uint64"
    show "x \<in> set ?xs \<longleftrightarrow> x \<in> {low..high}"
    proof
      assume "x \<in> set ?xs"
      then obtain n where n: "n \<in> set ?ns" "x = of_nat n" by auto
      with un [OF n(1)] show "x \<in> {low..high}"
        by (auto simp: word_le_nat_alt)
    next
      assume "x \<in> {low..high}"
      then have "unat x \<in> set ?ns" by (auto simp: word_le_nat_alt)
      moreover have "x = (of_nat (unat x) :: uint64)" by simp
      ultimately show "x \<in> set ?xs" unfolding set_map by (rule rev_image_eqI)
    qed
  qed
  moreover have "map (\<lambda>n. unat (of_nat n :: uint64)) ?ns = ?ns"
    by (rule map_idI) (rule un)
  then have "map unat ?xs = ?ns"
    by (simp only: map_map comp_def)
  then have du: "distinct (map unat ?xs)" and su: "sorted (map unat ?xs)"
    by (simp_all only: distinct_upt sorted_upt)
  from du have "distinct ?xs" by (simp only: distinct_map)
  moreover from su have "sorted_wrt (\<lambda>x y. unat x \<le> unat y) ?xs"
    by (simp only: sorted_map)
  then have "sorted ?xs"
    by (simp only: word_le_nat_alt [symmetric])
  ultimately show ?thesis using r by blast
qed

section \<open>Facts about the resolver\<close>

lemmas node_eval =
  node_def node_table_def node_key_def world0_def call_Validators_def
  call_ValidatorsByPubKey_def call_WalletAndAccountFromPath_def range_map_def
  map_order.simps(2)

lemma ParseValidators_single:
  "ParseValidators c [s] stateID w =
     (case ParseValidators_body c stateID s w of
        None \<Rightarrow> None
      | Some (Inl err, w1) \<Rightarrow> Some ((None, Some err), w1)
      | Some (Inr found, w1) \<Rightarrow> Some ((Some found, None), w1))"
  by (simp add: ParseValidators_def split: option.splits sum.splits prod.splits)

lemma ParseValidators_body_range:
  assumes "Contains s ''-''" and "Split s CHR ''-'' = [a, b]"
    and "ParseUint a = Inr low" and "ParseUint b = Inr high"
    and "range_indices low high [] = Some indices"
  shows "ParseValidators_body c stateID s w =
     (case Validators c (pstate w) stateID indices of
        (Inl err, p) \<Rightarrow>
          Some (Inl (Wrap err (''failed to obtain validators '' @ s)),
                w\<lparr>calls := calls w @ [IndexLookup stateID indices], pstate := p\<rparr>)
      | (Inr m, p) \<Rightarrow>
          Some (Inr (map snd (map_order (rand w (iters w)) m)),
                w\<lparr>calls := calls w @ [IndexLookup stateID indices], pstate := p,
                  iters := Suc (iters w)\<rparr>))"
  using assms
  by (simp add: ParseValidators_body_def call_Validators_def range_map_def
      split: prod.splits sum.splits)

lemma ParseValidators_loop_range:
  assumes "Contains s ''-''" and "Split s CHR ''-'' = [a, b]"
    and "ParseUint a = Inr low" and "ParseUint b = Inr high"
    and "range_indices low high [] = Some indices"
    and "Validators c (pstate w) stateID indices = (Inr m, p)"
  shows "ParseValidators_loop c stateID (s # rest) validators w =
     ParseValidators_loop c stateID rest
       (validators @ map snd (map_order (rand w (iters w)) m))
       (w\<lparr>calls := calls w @ [IndexLookup stateID indices], pstate := p,
          iters := Suc (iters w)\<rparr>)"
  using ParseValidators_body_range [OF assms(1-5), of c stateID w] assms(6) by simp

lemma first_entry_Nil:
  "first_entry [] w = ((None, Some (New ''unknown validator'')), w\<lparr>iters := Suc (iters w)\<rparr>)"
  by (simp add: first_entry_def range_map_def)

lemma first_entry_nonempty:
  assumes "m \<noteq> []"
  shows "first_entry m w =
    ((snd (m ! (rand w (iters w) mod length m)), None), w\<lparr>iters := Suc (iters w)\<rparr>)"
proof -
  obtain x xs where m: "m = x # xs" using assms by (cases m) auto
  show ?thesis
    by (simp add: m first_entry_def range_map_def map_order.simps(2) Let_def split: prod.splits)
qed


lemma ParseValidator_switch_account:
  assumes "\<not> HasPrefix s ''0x''" and "Contains s ''/''"
    and "WalletAndAccountFromPath c (pstate w) s = (Inr account, p1)"
    and "BestPublicKey c account = Inr k"
  shows "ParseValidator_switch c s stateID w =
     (case ValidatorsByPubKey c p1 stateID [copy emptyBLSPubKey (Marshal c k)] of
        (Inl err, p) \<Rightarrow>
          (Inl (Wrap err ''failed to obtain validator information''),
           w\<lparr>calls := calls w @ [AccountLookup s,
                  PubKeyLookup stateID [copy emptyBLSPubKey (Marshal c k)]], pstate := p\<rparr>)
      | (Inr m, p) \<Rightarrow>
          (Inr m,
           w\<lparr>calls := calls w @ [AccountLookup s,
                  PubKeyLookup stateID [copy emptyBLSPubKey (Marshal c k)]], pstate := p\<rparr>))"
  using assms
  by (simp add: ParseValidator_switch_def call_ValidatorsByPubKey_def
      call_WalletAndAccountFromPath_def split: prod.splits sum.splits)

lemma ParseValidator_switch_index:
  assumes "\<not> HasPrefix s ''0x''" and "\<not> Contains s ''/''" and "ParseUint s = Inr i"
  shows "ParseValidator_switch c s stateID w =
     (case Validators c (pstate w) stateID [i] of
        (Inl err, p) \<Rightarrow>
          (Inl (Wrap err ''failed to obtain validator information''),
           w\<lparr>calls := calls w @ [IndexLookup stateID [i]], pstate := p\<rparr>)
      | (Inr m, p) \<Rightarrow>
          (Inr m, w\<lparr>calls := calls w @ [IndexLookup stateID [i]], pstate := p\<rparr>))"
  using assms
  by (simp add: ParseValidator_switch_def call_Validators_def split: prod.splits sum.splits)








subsection \<open>The order of iteration\<close>

lemma call_Validators_rand:
  "call_Validators c stateID indices (w\<lparr>rand := r\<rparr>) =
     (case call_Validators c stateID indices w of (x, w1) \<Rightarrow> (x, w1\<lparr>rand := r\<rparr>))"
  by (simp add: call_Validators_def split: prod.splits)

lemma call_ValidatorsByPubKey_rand:
  "call_ValidatorsByPubKey c stateID keys (w\<lparr>rand := r\<rparr>) =
     (case call_ValidatorsByPubKey c stateID keys w of (x, w1) \<Rightarrow> (x, w1\<lparr>rand := r\<rparr>))"
  by (simp add: call_ValidatorsByPubKey_def split: prod.splits)

lemma call_WalletAndAccountFromPath_rand:
  "call_WalletAndAccountFromPath c path (w\<lparr>rand := r\<rparr>) =
     (case call_WalletAndAccountFromPath c path w of (x, w1) \<Rightarrow> (x, w1\<lparr>rand := r\<rparr>))"
  by (simp add: call_WalletAndAccountFromPath_def split: prod.splits)

lemma ParseValidator_switch_rand:
  "ParseValidator_switch c s stateID (w\<lparr>rand := r\<rparr>) =
     (case ParseValidator_switch c s stateID w of (x, w1) \<Rightarrow> (x, w1\<lparr>rand := r\<rparr>))"
  by (simp add: ParseValidator_switch_def call_Validators_rand call_ValidatorsByPubKey_rand
      call_WalletAndAccountFromPath_rand Let_def split: prod.splits sum.splits)

lemma ParseValidator_rand:
  assumes "ParseValidator c s stateID w = ((v, e), w1)"
  shows "\<exists>v'. ParseValidator c s stateID (w\<lparr>rand := r\<rparr>) = ((v', e), w1\<lparr>rand := r\<rparr>)"
proof (cases "ParseValidator_switch c s stateID w")
  case (Pair x w0)
  show ?thesis
  proof (cases x)
    case (Inl err)
    with Pair assms show ?thesis
      by (auto simp: ParseValidator_def ParseValidator_switch_rand)
  next
    case (Inr m)
    with Pair assms show ?thesis
      by (cases m)
        (auto simp: ParseValidator_def ParseValidator_switch_rand first_entry_Nil
          first_entry_nonempty)
  qed
qed

lemma ParseValidators_body_rand:
  "(case ParseValidators_body c stateID s w of
      None \<Rightarrow> ParseValidators_body c stateID s (w\<lparr>rand := r\<rparr>) = None
    | Some (Inl e, w1) \<Rightarrow>
        ParseValidators_body c stateID s (w\<lparr>rand := r\<rparr>) = Some (Inl e, w1\<lparr>rand := r\<rparr>)
    | Some (Inr found, w1) \<Rightarrow>
        (\<exists>found'. length found' = length found
           \<and> ParseValidators_body c stateID s (w\<lparr>rand := r\<rparr>) =
               Some (Inr found', w1\<lparr>rand := r\<rparr>)))"
proof (cases "Contains s ''-''")
  case True
  then show ?thesis
    by (auto simp: ParseValidators_body_def call_Validators_def range_map_def Let_def
        length_map_order split: option.splits sum.splits prod.splits)
next
  case False
  obtain v e w1 where pv: "ParseValidator c s stateID w = ((v, e), w1)"
    by (metis surj_pair)
  from ParseValidator_rand [OF pv, where r = r]
  obtain v' where "ParseValidator c s stateID (w\<lparr>rand := r\<rparr>) = ((v', e), w1\<lparr>rand := r\<rparr>)" ..
  with False pv show ?thesis
    by (cases e) (simp_all add: ParseValidators_body_def)
qed

lemma map_order_short: "length m \<le> 1 \<Longrightarrow> map_order seed m = m"
proof (cases m)
  case Nil
  then show ?thesis by simp
next
  case (Cons x xs)
  assume "length m \<le> 1"
  with Cons have "xs = []" by simp
  with Cons show ?thesis by (simp add: map_order.simps(2))
qed

lemma ParseValidator_switch_small:
  assumes V: "\<forall>p sid x m p'. Validators c p sid x = (Inr m, p') \<longrightarrow> length m \<le> 1"
    and K: "\<forall>p sid x m p'. ValidatorsByPubKey c p sid x = (Inr m, p') \<longrightarrow> length m \<le> 1"
    and sw: "ParseValidator_switch c s stateID w = (Inr m, w1)"
  shows "length m \<le> 1"
  using sw
  by (auto simp: ParseValidator_switch_def call_Validators_def call_ValidatorsByPubKey_def
      call_WalletAndAccountFromPath_def Let_def
      split: if_splits sum.splits prod.splits dest: V [rule_format] K [rule_format])

lemma first_entry_small:
  "length m \<le> 1 \<Longrightarrow>
   first_entry m (w\<lparr>rand := r\<rparr>) = (case first_entry m w of (x, w1) \<Rightarrow> (x, w1\<lparr>rand := r\<rparr>))"
  by (simp add: first_entry_def range_map_def map_order_short split: list.splits prod.splits)

lemma ParseValidator_small:
  assumes V: "\<forall>p sid x m p'. Validators c p sid x = (Inr m, p') \<longrightarrow> length m \<le> 1"
    and K: "\<forall>p sid x m p'. ValidatorsByPubKey c p sid x = (Inr m, p') \<longrightarrow> length m \<le> 1"
  shows "ParseValidator c s stateID (w\<lparr>rand := r\<rparr>) =
     (case ParseValidator c s stateID w of (x, w1) \<Rightarrow> (x, w1\<lparr>rand := r\<rparr>))"
proof (cases "ParseValidator_switch c s stateID w")
  case (Pair x w0)
  show ?thesis
  proof (cases x)
    case (Inl err)
    with Pair show ?thesis by (simp add: ParseValidator_def ParseValidator_switch_rand)
  next
    case (Inr m)
    with Pair have "length m \<le> 1" using ParseValidator_switch_small [OF V K] by blast
    with Pair Inr show ?thesis
      by (simp add: ParseValidator_def ParseValidator_switch_rand first_entry_small)
  qed
qed

lemma ParseValidators_body_small:
  assumes V: "\<forall>p sid x m p'. Validators c p sid x = (Inr m, p') \<longrightarrow> length m \<le> 1"
    and K: "\<forall>p sid x m p'. ValidatorsByPubKey c p sid x = (Inr m, p') \<longrightarrow> length m \<le> 1"
  shows "ParseValidators_body c stateID s (w\<lparr>rand := r\<rparr>) =
     map_option (\<lambda>(x, w1). (x, w1\<lparr>rand := r\<rparr>)) (ParseValidators_body c stateID s w)"
proof (cases "Contains s ''-''")
  case True
  have "map_order seed m = m" if "Validators c p sid x = (Inr m, p')" for seed m p sid x p'
    using V [rule_format, OF that] by (rule map_order_short)
  with True show ?thesis
    by (auto simp: ParseValidators_body_def call_Validators_def range_map_def Let_def
        split: option.splits sum.splits prod.splits)
next
  case False
  then show ?thesis
    by (auto simp: ParseValidators_body_def ParseValidator_small [OF V K]
        split: option.splits prod.splits)
qed

lemma ParseValidators_loop_small:
  assumes V: "\<forall>p sid x m p'. Validators c p sid x = (Inr m, p') \<longrightarrow> length m \<le> 1"
    and K: "\<forall>p sid x m p'. ValidatorsByPubKey c p sid x = (Inr m, p') \<longrightarrow> length m \<le> 1"
  shows "ParseValidators_loop c stateID xs validators (w\<lparr>rand := r\<rparr>) =
     map_option (\<lambda>(x, w1). (x, w1\<lparr>rand := r\<rparr>)) (ParseValidators_loop c stateID xs validators w)"
proof (induction xs arbitrary: validators w)
  case Nil
  show ?case by simp
next
  case (Cons s rest)
  show ?case
    by (simp add: ParseValidators_body_small [OF V K] Cons.IH
        split: option.splits sum.splits prod.splits)
qed

subsection \<open>Runs told by the collections looked up\<close>

lemma ParseValidators_indexed_loop:
  "ParseValidators_indexed c stateID xs i validators w =
     map_option (\<lambda>res. (res, xs)) (ParseValidators_loop c stateID (drop i xs) validators w)"
proof (induction c stateID xs i validators w rule: ParseValidators_indexed.induct)
  case (1 c stateID xs i validators w)
  show ?case
  proof (cases "i < length xs")
    case False
    then show ?thesis by (subst ParseValidators_indexed.simps) simp
  next
    case True
    then have d: "drop i xs = xs ! i # drop (Suc i) xs" by (simp add: Cons_nth_drop_Suc)
    show ?thesis
    proof (cases "ParseValidators_body c stateID (xs ! i) w")
      case None
      with True d show ?thesis by (subst ParseValidators_indexed.simps) simp
    next
      case (Some a)
      obtain x w1 where a: "a = (x, w1)" by (cases a)
      show ?thesis
      proof (cases x)
        case (Inl err)
        with True d Some a show ?thesis by (subst ParseValidators_indexed.simps) simp
      next
        case (Inr found)
        from 1 [OF True Some [unfolded a Inr] refl refl] True d Some a Inr
        show ?thesis by (subst ParseValidators_indexed.simps) simp
      qed
    qed
  qed
qed

lemma ParseValidators_body_lookup:
  "ParseValidators_body c stateID s w =
     (case ParseValidators_lookup c stateID s w of
        None \<Rightarrow> None
      | Some (Inl e, w1) \<Rightarrow> Some (Inl e, w1)
      | Some (Inr m, w1) \<Rightarrow>
          (if Contains s ''-'' then
             Some (Inr (map snd (map_order (rand w1 (iters w1)) m)),
                   w1\<lparr>iters := Suc (iters w1)\<rparr>)
           else if m = [] then
             Some (Inl (Wrap (New ''unknown validator'') (''unknown validator '' @ s)),
                   w1\<lparr>iters := Suc (iters w1)\<rparr>)
           else
             Some (Inr [snd (m ! (rand w1 (iters w1) mod length m))],
                   w1\<lparr>iters := Suc (iters w1)\<rparr>)))"
proof (cases "Contains s ''-''")
  case True
  then show ?thesis
    by (simp add: ParseValidators_body_def ParseValidators_lookup_def range_map_def Let_def
        split: option.splits sum.splits prod.splits)
next
  case False
  then show ?thesis
    by (auto simp: ParseValidators_body_def ParseValidators_lookup_def ParseValidator_def
        first_entry_Nil first_entry_nonempty split: option.splits sum.splits prod.splits)
qed

lemma ParseValidators_lookup_rand:
  "ParseValidators_lookup c stateID s (w\<lparr>rand := r\<rparr>) =
     map_option (\<lambda>(x, w1). (x, w1\<lparr>rand := r\<rparr>)) (ParseValidators_lookup c stateID s w)"
  by (simp add: ParseValidators_lookup_def call_Validators_rand ParseValidator_switch_rand Let_def
      split: option.splits sum.splits prod.splits)

lemma ParseValidators_body_lookup_rand:
  "ParseValidators_body c stateID s (w\<lparr>rand := r\<rparr>) =
     (case ParseValidators_lookup c stateID s w of
        None \<Rightarrow> None
      | Some (Inl e, w1) \<Rightarrow> Some (Inl e, w1\<lparr>rand := r\<rparr>)
      | Some (Inr m, w1) \<Rightarrow>
          (if Contains s ''-'' then
             Some (Inr (map snd (map_order (r (iters w1)) m)),
                   w1\<lparr>rand := r, iters := Suc (iters w1)\<rparr>)
           else if m = [] then
             Some (Inl (Wrap (New ''unknown validator'') (''unknown validator '' @ s)),
                   w1\<lparr>rand := r, iters := Suc (iters w1)\<rparr>)
           else
             Some (Inr [snd (m ! (r (iters w1) mod length m))],
                   w1\<lparr>rand := r, iters := Suc (iters w1)\<rparr>)))"
  by (simp add: ParseValidators_body_lookup [of c stateID s "w\<lparr>rand := r\<rparr>"]
      ParseValidators_lookup_rand split: option.splits sum.splits prod.splits)

lemma drawn_from_range:
  "Contains s ''-'' \<Longrightarrow> drawn_from (s, m) (map snd (map_order seed m))"
  by (simp add: drawn_from_def mset_map_order)

lemma drawn_from_single:
  "\<not> Contains s ''-'' \<Longrightarrow> m \<noteq> [] \<Longrightarrow> drawn_from (s, m) [snd (m ! (seed mod length m))]"
  by (auto simp: drawn_from_def list_ex_iff)

lemma ParseValidators_loop_answers:
  "ParseValidators_loop c stateID xs validators (w\<lparr>rand := r\<rparr>) = Some ((Some l, e), w') \<Longrightarrow>
     e = None \<and> map fst (ParseValidators_answers c stateID xs w) = xs
     \<and> (\<exists>segs. l = validators @ concat segs
           \<and> list_all2 drawn_from (ParseValidators_answers c stateID xs w) segs)"
proof (induction xs arbitrary: validators w)
  case Nil
  then show ?case by simp
next
  case (Cons s rest)
  show ?case
  proof (cases "ParseValidators_lookup c stateID s w")
    case None
    with Cons.prems show ?thesis by (simp add: ParseValidators_body_lookup_rand)
  next
    case (Some a)
    obtain x w1 where a: "a = (x, w1)" by (cases a)
    show ?thesis
    proof (cases x)
      case (Inl err)
      with Cons.prems Some a show ?thesis by (simp add: ParseValidators_body_lookup_rand)
    next
      case (Inr m)
      let ?w2 = "w1\<lparr>iters := Suc (iters w1)\<rparr>"
      have upd: "w1\<lparr>rand := r, iters := Suc (iters w1)\<rparr> = ?w2\<lparr>rand := r\<rparr>" by simp
      show ?thesis
      proof (cases "Contains s ''-''")
        case True
        let ?f = "map snd (map_order (r (iters w1)) m)"
        from Cons.prems Some a Inr True
        have "ParseValidators_loop c stateID rest (validators @ ?f)
            (w1\<lparr>rand := r, iters := Suc (iters w1)\<rparr>) = Some ((Some l, e), w')"
          by (simp add: ParseValidators_body_lookup_rand)
        then have "ParseValidators_loop c stateID rest (validators @ ?f) (?w2\<lparr>rand := r\<rparr>) =
            Some ((Some l, e), w')"
          by (simp only: upd)
        from Cons.IH [OF this] obtain segs where
          IH: "e = None" "map fst (ParseValidators_answers c stateID rest ?w2) = rest"
            "l = (validators @ ?f) @ concat segs"
            "list_all2 drawn_from (ParseValidators_answers c stateID rest ?w2) segs"
          by blast
        from IH(3) have "l = validators @ concat (?f # segs)" by simp
        moreover from IH(4) True
        have "list_all2 drawn_from (ParseValidators_answers c stateID (s # rest) w) (?f # segs)"
          by (simp add: Some a Inr drawn_from_range)
        ultimately show ?thesis using IH(1,2) True Some a Inr by (simp del: concat.simps) blast
      next
        case False
        show ?thesis
        proof (cases "m = []")
          case True
          with Cons.prems Some a Inr False show ?thesis
            by (simp add: ParseValidators_body_lookup_rand)
        next
          case ne: False
          let ?f = "[snd (m ! (r (iters w1) mod length m))]"
          from Cons.prems Some a Inr False ne
          have "ParseValidators_loop c stateID rest (validators @ ?f)
              (w1\<lparr>rand := r, iters := Suc (iters w1)\<rparr>) = Some ((Some l, e), w')"
            by (simp add: ParseValidators_body_lookup_rand)
          then have "ParseValidators_loop c stateID rest (validators @ ?f) (?w2\<lparr>rand := r\<rparr>) =
              Some ((Some l, e), w')"
            by (simp only: upd)
          from Cons.IH [OF this] obtain segs where
            IH: "e = None" "map fst (ParseValidators_answers c stateID rest ?w2) = rest"
              "l = (validators @ ?f) @ concat segs"
              "list_all2 drawn_from (ParseValidators_answers c stateID rest ?w2) segs"
            by blast
          from IH(3) have "l = validators @ concat (?f # segs)" by simp
          moreover from IH(4) False ne
          have "list_all2 drawn_from (ParseValidators_answers c stateID (s # rest) w) (?f # segs)"
            by (simp add: Some a Inr drawn_from_single)
          ultimately show ?thesis using IH(1,2) False ne Some a Inr
            by (simp del: concat.simps) blast
        qed
      qed
    qed
  qed
qed

lemma ParseValidators_loop_ends_alike:
  "(case ParseValidators_loop c stateID xs validators w of
      None \<Rightarrow> ParseValidators_loop c stateID xs validators' (w\<lparr>rand := r\<rparr>) = None
    | Some ((vs, e), w1) \<Rightarrow>
        (\<exists>vs'. ParseValidators_loop c stateID xs validators' (w\<lparr>rand := r\<rparr>) =
                  Some ((vs', e), w1\<lparr>rand := r\<rparr>)
               \<and> (vs' = None) = (vs = None)))"
proof (induction xs arbitrary: validators validators' w)
  case Nil
  show ?case by simp
next
  case (Cons s rest)
  note b = ParseValidators_body_rand
    [where c = c and stateID = stateID and s = s and w = w and r = r]
  show ?case
  proof (cases "ParseValidators_body c stateID s w")
    case None
    with b have "ParseValidators_body c stateID s (w\<lparr>rand := r\<rparr>) = None" by simp
    then have "ParseValidators_loop c stateID (s # rest) validators' (w\<lparr>rand := r\<rparr>) = None"
      by simp
    moreover from None have "ParseValidators_loop c stateID (s # rest) validators w = None"
      by simp
    ultimately show ?thesis by simp
  next
    case (Some a)
    obtain x w1 where a: "a = (x, w1)" by (cases a)
    show ?thesis
    proof (cases x)
      case (Inl err)
      with Some a b
      have "ParseValidators_body c stateID s (w\<lparr>rand := r\<rparr>) = Some (Inl err, w1\<lparr>rand := r\<rparr>)"
        by simp
      then have "ParseValidators_loop c stateID (s # rest) validators' (w\<lparr>rand := r\<rparr>) =
          Some ((None, Some err), w1\<lparr>rand := r\<rparr>)"
        by simp
      moreover from Some a Inl
      have "ParseValidators_loop c stateID (s # rest) validators w = Some ((None, Some err), w1)"
        by simp
      ultimately show ?thesis by simp
    next
      case (Inr found)
      with Some a b obtain found' where f:
        "ParseValidators_body c stateID s (w\<lparr>rand := r\<rparr>) = Some (Inr found', w1\<lparr>rand := r\<rparr>)"
        by auto
      then have R: "ParseValidators_loop c stateID (s # rest) validators' (w\<lparr>rand := r\<rparr>) =
          ParseValidators_loop c stateID rest (validators' @ found') (w1\<lparr>rand := r\<rparr>)"
        by simp
      from Some a Inr
      have L: "ParseValidators_loop c stateID (s # rest) validators w =
          ParseValidators_loop c stateID rest (validators @ found) w1"
        by simp
      show ?thesis unfolding L R by (rule Cons.IH)
    qed
  qed
qed

section \<open>The claims\<close>

text \<open>
  C1. The claim: for every range identifier \<open>low-high\<close> with \<open>low \<le> high\<close>, ParseValidators
  issues exactly one index lookup with the indices \<open>low, ..., high\<close> and appends every
  record returned. The code does so whenever \<open>high\<close> is below the largest \<open>uint64\<close>
  (\<open>ParseValidators_body_range\<close> with \<open>range_indices_inclusive\<close>). For the range whose upper
  bound is the largest \<open>uint64\<close>, \<open>index <= high\<close> holds for every \<open>index\<close> and \<open>index++\<close> wraps
  around to 0: the loop that builds the indices never ends, no lookup is issued and
  ParseValidators does not return.
\<close>

theorem C1_range_up_to_max_uint64_never_returns:
  "ParseValidators c [''18446744073709551615-18446744073709551615''] stateID w = None"
proof -
  have p: "ParseUint ''18446744073709551615'' = Inr (-1)"
    by (simp add: ParseUint_eval)
  have s: "Split ''18446744073709551615-18446744073709551615'' CHR ''-'' =
      [''18446744073709551615'', ''18446744073709551615'']"
    by (simp add: Split.simps)
  show ?thesis
    by (simp add: ParseValidators_def ParseValidators_body_def Contains_single s p
        range_indices_diverges)
qed

text \<open>
  C2. A malformed identifier fails with the error of its kind, nothing is looked up
  and no record is returned. In \<open>ParseValidators\<close>: an identifier with a dash that does
  not split into exactly two parts fails with \<open>invalid range ...\<close> (MalformedRange); one
  whose first or second part \<open>strconv.ParseUint\<close> rejects fails with that error wrapped
  as \<open>invalid range start\<close> or \<open>invalid range end\<close> (InvalidRangeBound). In
  \<open>ParseValidator\<close>: an identifier without \<open>0x\<close> in front and without \<open>/\<close> that
  \<open>ParseUint\<close> rejects fails with that error wrapped as
  \<open>failed to parse validator index\<close> (InvalidIndex), and \<open>ParseUint\<close> rejects every
  text that is empty or holds a byte that is no digit; an identifier with \<open>0x\<close> in front
  whose rest \<open>hex.DecodeString\<close> rejects fails with that error wrapped as
  \<open>failed to parse validator public key\<close> (InvalidPublicKey), and \<open>DecodeString\<close>
  rejects every text of odd length or with a byte that is no hex digit.
\<close>

theorem C2_malformed_identifiers:
  "(Contains s ''-'' \<and> length (Split s CHR ''-'') \<noteq> 2 \<longrightarrow>
      ParseValidators c (s # rest) stateID w =
        Some ((None, Some (New (''invalid range '' @ s))), w))
   \<and> (Contains s ''-'' \<and> Split s CHR ''-'' = [a, b] \<and> ParseUint a = Inl err \<longrightarrow>
      ParseValidators c (s # rest) stateID w =
        Some ((None, Some (Wrap err ''invalid range start'')), w))
   \<and> (Contains s ''-'' \<and> Split s CHR ''-'' = [a, b] \<and> ParseUint a = Inr low
        \<and> ParseUint b = Inl err \<longrightarrow>
      ParseValidators c (s # rest) stateID w =
        Some ((None, Some (Wrap err ''invalid range end'')), w))
   \<and> (\<not> HasPrefix s ''0x'' \<and> \<not> Contains s ''/'' \<and> ParseUint s = Inl err \<longrightarrow>
      ParseValidator c s stateID w =
        ((None, Some (Wrap err ''failed to parse validator index'')), w))
   \<and> (s = [] \<or> list_ex (\<lambda>ch. \<not> isDigit ch) s \<longrightarrow> (\<exists>e. ParseUint s = Inl e))
   \<and> (HasPrefix s ''0x'' \<and> DecodeString (TrimPrefix s ''0x'') = Inl err \<longrightarrow>
      ParseValidator c s stateID w =
        ((None, Some (Wrap err ''failed to parse validator public key'')), w))
   \<and> (odd (length h) \<or> list_ex (\<lambda>ch. fromHexChar ch = None) h \<longrightarrow>
        (\<exists>e. DecodeString h = Inl e))"
proof (intro conjI impI)
  assume "Contains s ''-'' \<and> length (Split s CHR ''-'') \<noteq> 2"
  then show "ParseValidators c (s # rest) stateID w =
      Some ((None, Some (New (''invalid range '' @ s))), w)"
    by (simp add: ParseValidators_def ParseValidators_body_def)
next
  assume "Contains s ''-'' \<and> Split s CHR ''-'' = [a, b] \<and> ParseUint a = Inl err"
  then show "ParseValidators c (s # rest) stateID w =
      Some ((None, Some (Wrap err ''invalid range start'')), w)"
    by (simp add: ParseValidators_def ParseValidators_body_def)
next
  assume "Contains s ''-'' \<and> Split s CHR ''-'' = [a, b] \<and> ParseUint a = Inr low
      \<and> ParseUint b = Inl err"
  then show "ParseValidators c (s # rest) stateID w =
      Some ((None, Some (Wrap err ''invalid range end'')), w)"
    by (simp add: ParseValidators_def ParseValidators_body_def)
next
  assume "\<not> HasPrefix s ''0x'' \<and> \<not> Contains s ''/'' \<and> ParseUint s = Inl err"
  then show "ParseValidator c s stateID w =
      ((None, Some (Wrap err ''failed to parse validator index'')), w)"
    by (simp add: ParseValidator_def ParseValidator_switch_def)
next
  assume "s = [] \<or> list_ex (\<lambda>ch. \<not> isDigit ch) s"
  then show "\<exists>e. ParseUint s = Inl e"
    using ParseUint_nondigit [of s] by blast
next
  assume "HasPrefix s ''0x'' \<and> DecodeString (TrimPrefix s ''0x'') = Inl err"
  then show "ParseValidator c s stateID w =
      ((None, Some (Wrap err ''failed to parse validator public key'')), w)"
    by (simp add: ParseValidator_def ParseValidator_switch_def)
next
  assume "odd (length h) \<or> list_ex (\<lambda>ch. fromHexChar ch = None) h"
  then show "\<exists>e. DecodeString h = Inl e"
    by (rule DecodeString_not_hex)
qed

theorem C2_witness:
  "ParseValidators node [''1-2-3'', ''1''] ''head'' (world0 0) =
      Some ((None, Some (New ''invalid range 1-2-3'')), world0 0)
   \<and> ParseValidators node [''a-5'', ''1''] ''head'' (world0 0) =
      Some ((None, Some (Wrap (NumError ''ParseUint'' ''a'' ErrSyntax) ''invalid range start'')),
            world0 0)
   \<and> ParseValidators node [''5-18446744073709551616'', ''1''] ''head'' (world0 0) =
      Some ((None, Some (Wrap (NumError ''ParseUint'' ''18446744073709551616'' ErrRange)
                           ''invalid range end'')), world0 0)
   \<and> ParseValidator node ''12x'' ''head'' (world0 0) =
      ((None, Some (Wrap (NumError ''ParseUint'' ''12x'' ErrSyntax)
                      ''failed to parse validator index'')), world0 0)
   \<and> (\<exists>e. ParseUint ''12x'' = Inl e)
   \<and> ParseValidator node ''0xzz'' ''head'' (world0 0) =
      ((None, Some (Wrap (InvalidByteError CHR ''z'') ''failed to parse validator public key'')),
       world0 0)
   \<and> (\<exists>e. DecodeString ''abc'' = Inl e)"
proof -
  have c: "Contains ''1-2-3'' ''-''" "Contains ''a-5'' ''-''"
      "Contains ''5-18446744073709551616'' ''-''" "\<not> Contains ''12x'' ''/''"
    by (simp_all add: Contains_single)
  have p: "\<not> HasPrefix ''12x'' ''0x''" "HasPrefix ''0xzz'' ''0x''"
    by (simp_all add: HasPrefix_def)
  have s1: "length (Split ''1-2-3'' CHR ''-'') \<noteq> 2" by (simp add: Split.simps)
  have s2: "Split ''a-5'' CHR ''-'' = [''a'', ''5'']" by (simp add: Split.simps)
  have s3: "Split ''5-18446744073709551616'' CHR ''-'' = [''5'', ''18446744073709551616'']"
    by (simp add: Split.simps)
  have u1: "ParseUint ''a'' = Inl (NumError ''ParseUint'' ''a'' ErrSyntax)"
    by (simp add: ParseUint_eval)
  have u2: "ParseUint ''5'' = Inr 5" by (simp add: ParseUint_eval)
  have u3: "ParseUint ''18446744073709551616'' =
      Inl (NumError ''ParseUint'' ''18446744073709551616'' ErrRange)"
    by (simp add: ParseUint_eval)
  have u4: "ParseUint ''12x'' = Inl (NumError ''ParseUint'' ''12x'' ErrSyntax)"
    by (simp add: ParseUint_eval)
  have u5: "list_ex (\<lambda>ch. \<not> isDigit ch) ''12x''" by (simp add: isDigit_def)
  have d1: "DecodeString (TrimPrefix ''0xzz'' ''0x'') = Inl (InvalidByteError CHR ''z'')"
    by (simp add: TrimPrefix_def HasPrefix_def fromHexChar_def)
  have d2: "odd (length ''abc'')" by simp
  note t1 = C2_malformed_identifiers [of "''1-2-3''" node "[''1'']" "''head''" "world0 0"]
  note t2 = C2_malformed_identifiers [of "''a-5''" node "[''1'']" "''head''" "world0 0"
      "''a''" "''5''" "NumError ''ParseUint'' ''a'' ErrSyntax"]
  note t3 = C2_malformed_identifiers [of "''5-18446744073709551616''" node "[''1'']" "''head''"
      "world0 0" "''5''" "''18446744073709551616''"
      "NumError ''ParseUint'' ''18446744073709551616'' ErrRange" 5]
  note t4 = C2_malformed_identifiers [of "''12x''" node _ "''head''" "world0 0" _ _
      "NumError ''ParseUint'' ''12x'' ErrSyntax"]
  note t5 = C2_malformed_identifiers [of "''0xzz''" node _ "''head''" "world0 0" _ _
      "InvalidByteError CHR ''z''" _ "''abc''"]
  have r1: "ParseValidators node [''1-2-3'', ''1''] ''head'' (world0 0) =
      Some ((None, Some (New ''invalid range 1-2-3'')), world0 0)"
    using t1 c(1) s1 by simp
  have r2: "ParseValidators node [''a-5'', ''1''] ''head'' (world0 0) =
      Some ((None, Some (Wrap (NumError ''ParseUint'' ''a'' ErrSyntax) ''invalid range start'')),
            world0 0)"
    using t2 c(2) s2 u1 by blast
  have r3: "ParseValidators node [''5-18446744073709551616'', ''1''] ''head'' (world0 0) =
      Some ((None, Some (Wrap (NumError ''ParseUint'' ''18446744073709551616'' ErrRange)
                           ''invalid range end'')), world0 0)"
    using t3 c(3) s3 u2 u3 by blast
  have r4: "ParseValidator node ''12x'' ''head'' (world0 0) =
      ((None, Some (Wrap (NumError ''ParseUint'' ''12x'' ErrSyntax)
                      ''failed to parse validator index'')), world0 0)"
    using t4 c(4) p(1) u4 by blast
  have r5: "\<exists>e. ParseUint ''12x'' = Inl e"
    using t4 u5 by blast
  have r6: "ParseValidator node ''0xzz'' ''head'' (world0 0) =
      ((None, Some (Wrap (InvalidByteError CHR ''z'') ''failed to parse validator public key'')),
       world0 0)"
    using t5 p(2) d1 by blast
  have r7: "\<exists>e. DecodeString ''abc'' = Inl e"
    using t5 d2 by blast
  from r1 r2 r3 r4 r5 r6 r7 show ?thesis by blast
qed

text \<open>
  C3. The claim: a range \<open>low-high\<close> with \<open>low > high\<close> makes ParseValidators succeed with
  no entry for that identifier. The code looks the empty index set up, and the node of
  the examples answers such a lookup, as the client library does, with every validator
  of the state: the identifier \<open>5-3\<close> contributes three records, and in a state the
  node does not know the call fails.
\<close>

theorem C3_counterexample:
  "ParseUint ''5'' = Inr 5 \<and> ParseUint ''3'' = Inr 3 \<and> (3 :: uint64) < 5
   \<and> map_option fst (ParseValidators node [''5-3''] ''head'' (world0 0)) =
       Some (Some [Some 101, Some 102, Some 103], None)
   \<and> map_option fst (ParseValidators node [''5-3''] ''gone'' (world0 0)) =
       Some (None, Some (Wrap (New ''state not found'') ''failed to obtain validators 5-3''))"
  by (simp add: ParseValidators_def ParseValidators_body_def Contains_single Split.simps
      ParseUint_eval range_indices.simps node_eval)

text \<open>
  C3 as amended. For a range \<open>low-high\<close> whose bounds parse and with \<open>low > high\<close>, the
  code raises no error of its own: it looks up the empty index set, and when that
  lookup succeeds the loop goes on to the next identifier with exactly the records
  the provider returned appended, none when the provider returned none.
\<close>

theorem C3_empty_range_appends_what_the_lookup_returns:
  assumes "Contains s ''-''" and "Split s CHR ''-'' = [a, b]"
    and "ParseUint a = Inr low" and "ParseUint b = Inr high" and "high < low"
    and "Validators c (pstate w) stateID [] = (Inr m, p)"
  shows "\<exists>found.
      ParseValidators_loop c stateID (s # rest) validators w =
        ParseValidators_loop c stateID rest (validators @ found)
          (w\<lparr>calls := calls w @ [IndexLookup stateID []], pstate := p, iters := Suc (iters w)\<rparr>)
      \<and> mset found = mset (map snd m)
      \<and> (m = [] \<longrightarrow> found = [])"
proof -
  from assms(5) have r: "range_indices low high [] = Some []" by (rule range_indices_empty)
  let ?found = "map snd (map_order (rand w (iters w)) m)"
  have "mset ?found = mset (map snd m)"
    by (simp add: mset_map_order)
  moreover have "m = [] \<longrightarrow> ?found = []" by simp
  ultimately show ?thesis
    using ParseValidators_loop_range [OF assms(1-4) r assms(6), of rest validators] by blast
qed

theorem C3_witness:
  "Contains ''5-3'' ''-'' \<and> Split ''5-3'' CHR ''-'' = [''5'', ''3'']
   \<and> ParseUint ''5'' = Inr 5 \<and> ParseUint ''3'' = Inr 3 \<and> (3 :: uint64) < 5
   \<and> Validators node (pstate (world0 0)) ''genesis'' [] = (Inr [], 1)
   \<and> ParseValidators_loop node ''genesis'' [''5-3''] [] (world0 0) =
       Some ((Some [], None),
             \<lparr>calls = [IndexLookup ''genesis'' []], pstate = 1, rand = (\<lambda>n. 0), iters = 1\<rparr>)"
proof -
  have h1: "Contains ''5-3'' ''-''" by (simp add: Contains_single)
  have h2: "Split ''5-3'' CHR ''-'' = [''5'', ''3'']" by (simp add: Split.simps)
  have h3: "ParseUint ''5'' = Inr 5" by (simp add: ParseUint_eval)
  have h4: "ParseUint ''3'' = Inr 3" by (simp add: ParseUint_eval)
  have h5: "(3 :: uint64) < 5" by simp
  have h6: "Validators node (pstate (world0 0)) ''genesis'' [] = (Inr [], 1)"
    by (simp add: node_def node_table_def world0_def)
  from C3_empty_range_appends_what_the_lookup_returns
    [OF h1 h2 h3 h4 h5 h6, of "[]" "[]"]
  have "ParseValidators_loop node ''genesis'' [''5-3''] [] (world0 0) =
       Some ((Some [], None),
             \<lparr>calls = [IndexLookup ''genesis'' []], pstate = 1, rand = (\<lambda>n. 0), iters = 1\<rparr>)"
    by (auto simp: world0_def)
  with h1 h2 h3 h4 h5 h6 show ?thesis by blast
qed

text \<open>
  C4. \<open>ParseValidator\<close> looks at the identifier in a fixed order, and the first rule
  that matches decides, whatever else the string holds. Every string starting with
  \<open>0x\<close> is a hex public key: it fails as one when the rest is not hex (also when it
  holds a \<open>/\<close>), and is otherwise looked up with one call for one key. Every other
  string with a \<open>/\<close> is an account path: the account is resolved, and when it and its
  best public key are found, that key is looked up with one call for one key. Every
  string left is parsed as an unsigned 64-bit decimal index: it fails as one when it
  does not parse, and is otherwise looked up with one call for that one index. After a
  lookup the result is the lookup's error, or what the statements after the \<open>switch\<close>
  make of the collection returned.
\<close>

theorem C4_dispatch_first_match_wins:
  "(HasPrefix s ''0x'' \<longrightarrow>
      ParseValidator c s stateID w =
        (case DecodeString (TrimPrefix s ''0x'') of
           Inl err \<Rightarrow> ((None, Some (Wrap err ''failed to parse validator public key'')), w)
         | Inr data \<Rightarrow>
             (case ValidatorsByPubKey c (pstate w) stateID [copy emptyBLSPubKey data] of
                (Inl err, p) \<Rightarrow>
                  ((None, Some (Wrap err ''failed to obtain validator information'')),
                   w\<lparr>calls := calls w @ [PubKeyLookup stateID [copy emptyBLSPubKey data]],
                     pstate := p\<rparr>)
              | (Inr m, p) \<Rightarrow>
                  first_entry m
                   (w\<lparr>calls := calls w @ [PubKeyLookup stateID [copy emptyBLSPubKey data]],
                      pstate := p\<rparr>))))
   \<and> (\<not> HasPrefix s ''0x'' \<and> Contains s ''/'' \<longrightarrow>
      ParseValidator c s stateID w =
        (case WalletAndAccountFromPath c (pstate w) s of
           (Inl err, p1) \<Rightarrow>
             ((None, Some (Wrap err ''unable to obtain account'')),
              w\<lparr>calls := calls w @ [AccountLookup s], pstate := p1\<rparr>)
         | (Inr account, p1) \<Rightarrow>
             (case BestPublicKey c account of
                Inl err \<Rightarrow>
                  ((None, Some (Wrap err ''unable to obtain public key for account'')),
                   w\<lparr>calls := calls w @ [AccountLookup s], pstate := p1\<rparr>)
              | Inr k \<Rightarrow>
                  (case ValidatorsByPubKey c p1 stateID [copy emptyBLSPubKey (Marshal c k)] of
                     (Inl err, p) \<Rightarrow>
                       ((None, Some (Wrap err ''failed to obtain validator information'')),
                        w\<lparr>calls := calls w @ [AccountLookup s,
                               PubKeyLookup stateID [copy emptyBLSPubKey (Marshal c k)]],
                          pstate := p\<rparr>)
                   | (Inr m, p) \<Rightarrow>
                       first_entry m
                        (w\<lparr>calls := calls w @ [AccountLookup s,
                               PubKeyLookup stateID [copy emptyBLSPubKey (Marshal c k)]],
                           pstate := p\<rparr>)))))
   \<and> (\<not> HasPrefix s ''0x'' \<and> \<not> Contains s ''/'' \<longrightarrow>
      ParseValidator c s stateID w =
        (case ParseUint s of
           Inl err \<Rightarrow> ((None, Some (Wrap err ''failed to parse validator index'')), w)
         | Inr i \<Rightarrow>
             (case Validators c (pstate w) stateID [i] of
                (Inl err, p) \<Rightarrow>
                  ((None, Some (Wrap err ''failed to obtain validator information'')),
                   w\<lparr>calls := calls w @ [IndexLookup stateID [i]], pstate := p\<rparr>)
              | (Inr m, p) \<Rightarrow>
                  first_entry m
                   (w\<lparr>calls := calls w @ [IndexLookup stateID [i]], pstate := p\<rparr>))))"
proof -
  have 1: "HasPrefix s ''0x'' \<longrightarrow>
      ParseValidator c s stateID w =
        (case DecodeString (TrimPrefix s ''0x'') of
           Inl err \<Rightarrow> ((None, Some (Wrap err ''failed to parse validator public key'')), w)
         | Inr data \<Rightarrow>
             (case ValidatorsByPubKey c (pstate w) stateID [copy emptyBLSPubKey data] of
                (Inl err, p) \<Rightarrow>
                  ((None, Some (Wrap err ''failed to obtain validator information'')),
                   w\<lparr>calls := calls w @ [PubKeyLookup stateID [copy emptyBLSPubKey data]],
                     pstate := p\<rparr>)
              | (Inr m, p) \<Rightarrow>
                  first_entry m
                   (w\<lparr>calls := calls w @ [PubKeyLookup stateID [copy emptyBLSPubKey data]],
                      pstate := p\<rparr>)))"
    by (simp add: ParseValidator_def ParseValidator_switch_def call_ValidatorsByPubKey_def
        split: prod.splits sum.splits)
  have 2: "\<not> HasPrefix s ''0x'' \<and> Contains s ''/'' \<longrightarrow>
      ParseValidator c s stateID w =
        (case WalletAndAccountFromPath c (pstate w) s of
           (Inl err, p1) \<Rightarrow>
             ((None, Some (Wrap err ''unable to obtain account'')),
              w\<lparr>calls := calls w @ [AccountLookup s], pstate := p1\<rparr>)
         | (Inr account, p1) \<Rightarrow>
             (case BestPublicKey c account of
                Inl err \<Rightarrow>
                  ((None, Some (Wrap err ''unable to obtain public key for account'')),
                   w\<lparr>calls := calls w @ [AccountLookup s], pstate := p1\<rparr>)
              | Inr k \<Rightarrow>
                  (case ValidatorsByPubKey c p1 stateID [copy emptyBLSPubKey (Marshal c k)] of
                     (Inl err, p) \<Rightarrow>
                       ((None, Some (Wrap err ''failed to obtain validator information'')),
                        w\<lparr>calls := calls w @ [AccountLookup s,
                               PubKeyLookup stateID [copy emptyBLSPubKey (Marshal c k)]],
                          pstate := p\<rparr>)
                   | (Inr m, p) \<Rightarrow>
                       first_entry m
                        (w\<lparr>calls := calls w @ [AccountLookup s,
                               PubKeyLookup stateID [copy emptyBLSPubKey (Marshal c k)]],
                           pstate := p\<rparr>))))"
    by (simp add: ParseValidator_def ParseValidator_switch_def call_ValidatorsByPubKey_def
        call_WalletAndAccountFromPath_def split: prod.splits sum.splits)
  have 3: "\<not> HasPrefix s ''0x'' \<and> \<not> Contains s ''/'' \<longrightarrow>
      ParseValidator c s stateID w =
        (case ParseUint s of
           Inl err \<Rightarrow> ((None, Some (Wrap err ''failed to parse validator index'')), w)
         | Inr i \<Rightarrow>
             (case Validators c (pstate w) stateID [i] of
                (Inl err, p) \<Rightarrow>
                  ((None, Some (Wrap err ''failed to obtain validator information'')),
                   w\<lparr>calls := calls w @ [IndexLookup stateID [i]], pstate := p\<rparr>)
              | (Inr m, p) \<Rightarrow>
                  first_entry m
                   (w\<lparr>calls := calls w @ [IndexLookup stateID [i]], pstate := p\<rparr>)))"
    by (simp add: ParseValidator_def ParseValidator_switch_def call_Validators_def
        split: prod.splits sum.splits)
  from 1 2 3 show ?thesis by (intro conjI)
qed

theorem C4_witness:
  "ParseValidator node ''0x000000000000000000000000000000000000000000000000000000000000000000000000000000000000000000000003'' ''head'' (world0 0) =
     ((Some 103, None),
      \<lparr>calls = [PubKeyLookup ''head'' [node_key 3]], pstate = 1, rand = (\<lambda>n. 0), iters = 1\<rparr>)
   \<and> HasPrefix ''0x12/34'' ''0x'' \<and> Contains ''0x12/34'' ''/''
   \<and> ParseValidator node ''0x12/34'' ''head'' (world0 0) =
     ((None, Some (Wrap (InvalidByteError CHR ''/'') ''failed to parse validator public key'')),
      world0 0)
   \<and> ParseValidator node ''wallet/two'' ''head'' (world0 0) =
     ((Some 102, None),
      \<lparr>calls = [AccountLookup ''wallet/two'', PubKeyLookup ''head'' [node_key 2]],
         pstate = 1, rand = (\<lambda>n. 0), iters = 1\<rparr>)
   \<and> ParseValidator node ''12/34'' ''head'' (world0 0) =
     ((None, Some (Wrap (New ''account not found'') ''unable to obtain account'')),
      \<lparr>calls = [AccountLookup ''12/34''], pstate = 0, rand = (\<lambda>n. 0), iters = 0\<rparr>)
   \<and> ParseValidator node ''3'' ''head'' (world0 0) =
     ((Some 103, None),
      \<lparr>calls = [IndexLookup ''head'' [3]], pstate = 1, rand = (\<lambda>n. 0), iters = 1\<rparr>)
   \<and> ParseValidator node ''3x'' ''head'' (world0 0) =
     ((None, Some (Wrap (NumError ''ParseUint'' ''3x'' ErrSyntax)
                     ''failed to parse validator index'')), world0 0)"
proof -
  have d: "DecodeString (TrimPrefix ''0x000000000000000000000000000000000000000000000000000000000000000000000000000000000000000000000003'' ''0x'') = Inr (node_key 3)"
    by (simp add: TrimPrefix_def HasPrefix_def fromHexChar_def node_key_def eval_nat_numeral)
  have d2: "DecodeString (TrimPrefix ''0x12/34'' ''0x'') = Inl (InvalidByteError CHR ''/'')"
    by (simp add: TrimPrefix_def HasPrefix_def fromHexChar_def)
  have k: "copy emptyBLSPubKey (node_key n) = node_key n" for n
    by (simp add: copy_def emptyBLSPubKey_def node_key_def)
  have hp: "HasPrefix ''0x000000000000000000000000000000000000000000000000000000000000000000000000000000000000000000000003'' ''0x''" and hp2: "HasPrefix ''0x12/34'' ''0x''"
    by (simp_all add: HasPrefix_def)
  have sl: "Contains ''0x12/34'' ''/''" by (simp add: Contains_single)
  have l3: "ValidatorsByPubKey node p ''head'' [node_key 3] = (Inr [(3, Some 103)], Suc p)" for p
    by (simp add: node_def node_table_def node_key_def)
  have l2: "ValidatorsByPubKey node p ''head'' [node_key 2] = (Inr [(2, Some 102)], Suc p)" for p
    by (simp add: node_def node_table_def node_key_def)
  have li: "Validators node p ''head'' [3] = (Inr [(3, Some 103)], Suc p)" for p
    by (simp add: node_def node_table_def)
  have acc: "WalletAndAccountFromPath node p ''wallet/two'' = (Inr 2, p)"
    and acc2: "WalletAndAccountFromPath node p ''12/34'' = (Inl (New ''account not found''), p)"
    for p
    by (simp_all add: node_def)
  have best: "BestPublicKey node 2 = Inr 2" and m: "Marshal node = node_key"
    by (simp_all add: node_def)
  have a: "ParseValidator node ''0x000000000000000000000000000000000000000000000000000000000000000000000000000000000000000000000003'' ''head'' (world0 0) =
     ((Some 103, None),
      \<lparr>calls = [PubKeyLookup ''head'' [node_key 3]], pstate = 1, rand = (\<lambda>n. 0), iters = 1\<rparr>)"
    using C4_dispatch_first_match_wins [of "''0x000000000000000000000000000000000000000000000000000000000000000000000000000000000000000000000003''" node "''head''" "world0 0"] d hp
    by (simp add: k l3 first_entry_nonempty world0_def)
  have a2: "ParseValidator node ''0x12/34'' ''head'' (world0 0) =
     ((None, Some (Wrap (InvalidByteError CHR ''/'') ''failed to parse validator public key'')),
      world0 0)"
    using C4_dispatch_first_match_wins [of "''0x12/34''" node "''head''" "world0 0"] d2 hp2
    by simp
  have b: "ParseValidator node ''wallet/two'' ''head'' (world0 0) =
     ((Some 102, None),
      \<lparr>calls = [AccountLookup ''wallet/two'', PubKeyLookup ''head'' [node_key 2]],
         pstate = 1, rand = (\<lambda>n. 0), iters = 1\<rparr>)"
    using C4_dispatch_first_match_wins [of "''wallet/two''" node "''head''" "world0 0"]
    by (simp add: HasPrefix_def Contains_single acc best m k l2 first_entry_nonempty world0_def)
  have b2: "ParseValidator node ''12/34'' ''head'' (world0 0) =
     ((None, Some (Wrap (New ''account not found'') ''unable to obtain account'')),
      \<lparr>calls = [AccountLookup ''12/34''], pstate = 0, rand = (\<lambda>n. 0), iters = 0\<rparr>)"
    using C4_dispatch_first_match_wins [of "''12/34''" node "''head''" "world0 0"]
    by (simp add: HasPrefix_def Contains_single acc2 world0_def)
  have c: "ParseValidator node ''3'' ''head'' (world0 0) =
     ((Some 103, None),
      \<lparr>calls = [IndexLookup ''head'' [3]], pstate = 1, rand = (\<lambda>n. 0), iters = 1\<rparr>)"
    using C4_dispatch_first_match_wins [of "''3''" node "''head''" "world0 0"]
    by (simp add: HasPrefix_def Contains_single ParseUint_eval li first_entry_nonempty world0_def)
  have c2: "ParseValidator node ''3x'' ''head'' (world0 0) =
     ((None, Some (Wrap (NumError ''ParseUint'' ''3x'' ErrSyntax)
                     ''failed to parse validator index'')), world0 0)"
    using C4_dispatch_first_match_wins [of "''3x''" node "''head''" "world0 0"]
    by (simp add: HasPrefix_def Contains_single ParseUint_eval)
  from a hp2 sl a2 b b2 c c2 show ?thesis by (intro conjI)
qed



text \<open>
  C6. When the lookup succeeds with an empty collection, an identifier that is no range
  fails with \<open>unknown validator\<close>, and a range appends nothing and the loop goes on. When
  the collection of an identifier that is no range is not empty, \<open>ParseValidator\<close>
  returns the record of one of its entries and no error: the entry the \<open>range\<close>
  statement visits first, which the runtime is free to choose among all of them.
  \<open>ParseValidator_switch\<close> yields \<open>Inr m\<close> exactly when the lookup of the identifier
  succeeded with the collection \<open>m\<close>.
\<close>

theorem C6_empty_and_nonempty_collections:
  "(ParseValidator_switch c s stateID w = (Inr [], w1) \<longrightarrow>
      ParseValidator c s stateID w =
        ((None, Some (New ''unknown validator'')), w1\<lparr>iters := Suc (iters w1)\<rparr>))
   \<and> (ParseValidator_switch c s stateID w = (Inr m, w1) \<and> m \<noteq> [] \<longrightarrow>
        (\<exists>e \<in> set m. ParseValidator c s stateID w =
           ((snd e, None), w1\<lparr>iters := Suc (iters w1)\<rparr>)))
   \<and> (ParseValidator_switch c s stateID w = (Inr m, w1) \<and> m \<noteq> [] \<longrightarrow>
        (\<forall>e \<in> set m. \<exists>seed.
           first_entry m (w1\<lparr>rand := (\<lambda>n. seed)\<rparr>) =
             ((snd e, None), w1\<lparr>rand := (\<lambda>n. seed), iters := Suc (iters w1)\<rparr>)))
   \<and> (Contains r ''-'' \<and> Split r CHR ''-'' = [a, b] \<and> ParseUint a = Inr low
        \<and> ParseUint b = Inr high \<and> range_indices low high [] = Some indices
        \<and> Validators c (pstate w) stateID indices = (Inr [], p) \<longrightarrow>
      ParseValidators_loop c stateID (r # rest) validators w =
        ParseValidators_loop c stateID rest validators
          (w\<lparr>calls := calls w @ [IndexLookup stateID indices], pstate := p,
             iters := Suc (iters w)\<rparr>))"
proof (intro conjI impI)
  assume "ParseValidator_switch c s stateID w = (Inr [], w1)"
  then show "ParseValidator c s stateID w =
      ((None, Some (New ''unknown validator'')), w1\<lparr>iters := Suc (iters w1)\<rparr>)"
    by (simp add: ParseValidator_def first_entry_Nil)
next
  assume a: "ParseValidator_switch c s stateID w = (Inr m, w1) \<and> m \<noteq> []"
  let ?e = "m ! (rand w1 (iters w1) mod length m)"
  from a have "?e \<in> set m" by simp
  moreover from a have "ParseValidator c s stateID w =
      ((snd ?e, None), w1\<lparr>iters := Suc (iters w1)\<rparr>)"
    by (simp add: ParseValidator_def first_entry_nonempty)
  ultimately show "\<exists>e \<in> set m. ParseValidator c s stateID w =
      ((snd e, None), w1\<lparr>iters := Suc (iters w1)\<rparr>)"
    by blast
next
  assume a: "ParseValidator_switch c s stateID w = (Inr m, w1) \<and> m \<noteq> []"
  show "\<forall>e \<in> set m. \<exists>seed.
      first_entry m (w1\<lparr>rand := (\<lambda>n. seed)\<rparr>) =
        ((snd e, None), w1\<lparr>rand := (\<lambda>n. seed), iters := Suc (iters w1)\<rparr>)"
  proof
    fix e assume "e \<in> set m"
    then obtain i where i: "i < length m" "m ! i = e" by (auto simp: in_set_conv_nth)
    from a i have "first_entry m (w1\<lparr>rand := (\<lambda>n. i)\<rparr>) =
        ((snd e, None), w1\<lparr>rand := (\<lambda>n. i), iters := Suc (iters w1)\<rparr>)"
      by (simp add: first_entry_nonempty)
    then show "\<exists>seed. first_entry m (w1\<lparr>rand := (\<lambda>n. seed)\<rparr>) =
        ((snd e, None), w1\<lparr>rand := (\<lambda>n. seed), iters := Suc (iters w1)\<rparr>)"
      by blast
  qed
next
  assume "Contains r ''-'' \<and> Split r CHR ''-'' = [a, b] \<and> ParseUint a = Inr low
        \<and> ParseUint b = Inr high \<and> range_indices low high [] = Some indices
        \<and> Validators c (pstate w) stateID indices = (Inr [], p)"
  then show "ParseValidators_loop c stateID (r # rest) validators w =
        ParseValidators_loop c stateID rest validators
          (w\<lparr>calls := calls w @ [IndexLookup stateID indices], pstate := p,
             iters := Suc (iters w)\<rparr>)"
    using ParseValidators_loop_range [of r a b low high indices c w stateID "[]" p rest validators]
    by simp
qed

theorem C6_witness:
  "ParseValidator_switch node ''7'' ''head'' (world0 0) =
      (Inr [], \<lparr>calls = [IndexLookup ''head'' [7]], pstate = 1, rand = (\<lambda>n. 0), iters = 0\<rparr>)
   \<and> ParseValidator node ''7'' ''head'' (world0 0) =
      ((None, Some (New ''unknown validator'')),
       \<lparr>calls = [IndexLookup ''head'' [7]], pstate = 1, rand = (\<lambda>n. 0), iters = 1\<rparr>)
   \<and> ParseValidator_switch node ''3'' ''head'' (world0 0) =
      (Inr [(3, Some 103)],
       \<lparr>calls = [IndexLookup ''head'' [3]], pstate = 1, rand = (\<lambda>n. 0), iters = 0\<rparr>)
   \<and> ParseValidator node ''3'' ''head'' (world0 0) =
      ((Some 103, None),
       \<lparr>calls = [IndexLookup ''head'' [3]], pstate = 1, rand = (\<lambda>n. 0), iters = 1\<rparr>)
   \<and> (\<exists>seed. fst (first_entry [(3 :: ValidatorIndex, Some (103 :: nat))]
          (\<lparr>calls = [IndexLookup ''head'' [3]], pstate = 1 :: nat, rand = (\<lambda>n. seed),
             iters = 0\<rparr>)) = (Some 103, None))
   \<and> ParseValidators_loop node ''head'' [''7-9''] [] (world0 0) =
      Some ((Some [], None),
            \<lparr>calls = [IndexLookup ''head'' [7, 8, 9]], pstate = 1, rand = (\<lambda>n. 0), iters = 1\<rparr>)"
proof -
  let ?w7 = "\<lparr>calls = [IndexLookup ''head'' [7]], pstate = 1 :: nat, rand = (\<lambda>n. 0 :: nat),
      iters = 0\<rparr>"
  let ?w3 = "\<lparr>calls = [IndexLookup ''head'' [3]], pstate = 1 :: nat, rand = (\<lambda>n. 0 :: nat),
      iters = 0\<rparr>"
  have sw7: "ParseValidator_switch node ''7'' ''head'' (world0 0) = (Inr [], ?w7)"
    by (simp add: ParseValidator_switch_def HasPrefix_def Contains_single ParseUint_eval
        node_def node_table_def world0_def call_Validators_def)
  have sw3: "ParseValidator_switch node ''3'' ''head'' (world0 0) = (Inr [(3, Some 103)], ?w3)"
    by (simp add: ParseValidator_switch_def HasPrefix_def Contains_single ParseUint_eval
        node_def node_table_def world0_def call_Validators_def)
  have h1: "Contains ''7-9'' ''-''" by (simp add: Contains_single)
  have h2: "Split ''7-9'' CHR ''-'' = [''7'', ''9'']" by (simp add: Split.simps)
  have h3: "ParseUint ''7'' = Inr 7" by (simp add: ParseUint_eval)
  have h4: "ParseUint ''9'' = Inr 9" by (simp add: ParseUint_eval)
  have h5: "range_indices 7 9 [] = Some [7, 8, 9]" by (simp add: range_indices.simps)
  have h6: "Validators node (pstate (world0 0)) ''head'' [7, 8, 9] = (Inr [], 1)"
    by (simp add: node_def node_table_def world0_def)
  note t7 = C6_empty_and_nonempty_collections
    [where c = node and s = "''7''" and stateID = "''head''" and w = "world0 0" and ?w1.0 = ?w7
      and r = "''7-9''" and a = "''7''" and b = "''9''" and low = 7 and high = 9
      and indices = "[7, 8, 9]" and p = 1 and rest = "[]" and validators = "[]"]
  note t3 = C6_empty_and_nonempty_collections
    [where c = node and s = "''3''" and stateID = "''head''" and w = "world0 0" and ?w1.0 = ?w3
      and m = "[(3, Some 103)]"]
  have r1: "ParseValidator node ''7'' ''head'' (world0 0) =
      ((None, Some (New ''unknown validator'')),
       \<lparr>calls = [IndexLookup ''head'' [7]], pstate = 1, rand = (\<lambda>n. 0), iters = 1\<rparr>)"
    using t7 sw7 by simp
  have r2: "ParseValidator node ''3'' ''head'' (world0 0) =
      ((Some 103, None),
       \<lparr>calls = [IndexLookup ''head'' [3]], pstate = 1, rand = (\<lambda>n. 0), iters = 1\<rparr>)"
    using t3 sw3 by simp
  have "\<forall>e \<in> set [(3 :: ValidatorIndex, Some (103 :: nat))]. \<exists>seed.
      first_entry [(3, Some 103)] (?w3\<lparr>rand := (\<lambda>n. seed)\<rparr>) =
        ((snd e, None), ?w3\<lparr>rand := (\<lambda>n. seed), iters := Suc (iters ?w3)\<rparr>)"
    using t3 sw3 by blast
  then obtain seed where "first_entry [(3 :: ValidatorIndex, Some (103 :: nat))]
      (?w3\<lparr>rand := (\<lambda>n. seed)\<rparr>) =
        ((Some 103, None), ?w3\<lparr>rand := (\<lambda>n. seed), iters := Suc (iters ?w3)\<rparr>)"
    by auto
  then have "fst (first_entry [(3 :: ValidatorIndex, Some (103 :: nat))]
          (\<lparr>calls = [IndexLookup ''head'' [3]], pstate = 1 :: nat, rand = (\<lambda>n. seed),
             iters = 0\<rparr>)) = (Some 103, None)"
    by simp
  then have r3: "\<exists>seed. fst (first_entry [(3 :: ValidatorIndex, Some (103 :: nat))]
          (\<lparr>calls = [IndexLookup ''head'' [3]], pstate = 1 :: nat, rand = (\<lambda>n. seed),
             iters = 0\<rparr>)) = (Some 103, None)"
    by (rule exI)
  have r4: "ParseValidators_loop node ''head'' [''7-9''] [] (world0 0) =
      Some ((Some [], None),
            \<lparr>calls = [IndexLookup ''head'' [7, 8, 9]], pstate = 1, rand = (\<lambda>n. 0), iters = 1\<rparr>)"
    using t7 h1 h2 h3 h4 h5 h6 by (simp add: world0_def)
  from sw7 r1 sw3 r2 r3 r4 show ?thesis by blast
qed




text \<open>
  C8. The claim: two runs of ParseValidators on the same identifiers against the same
  deterministic collaborator produce the same result. The order in which a \<open>range\<close>
  statement visits a map is chosen by the runtime for each statement, and the records
  of a range are appended in that order: the same node, asked for \<open>1-2\<close> in the same
  state, gives the two records in one order in one run and in the other order in
  another. The two worlds differ in the iteration order alone.
\<close>

theorem C8_counterexample:
  "world0 1 = (world0 0)\<lparr>rand := (\<lambda>n. 1)\<rparr>
   \<and> map_option fst (ParseValidators node [''1-2''] ''head'' (world0 0)) =
       Some (Some [Some 101, Some 102], None)
   \<and> map_option fst (ParseValidators node [''1-2''] ''head'' (world0 1)) =
       Some (Some [Some 102, Some 101], None)"
  by (simp add: ParseValidators_def ParseValidators_body_def Contains_single Split.simps
      ParseUint_eval range_indices.simps node_eval)

text \<open>
  C8 as amended. ParseValidators leaves the identifier list as it was, and its result
  is determined by the identifiers, the state identifier, the collaborator's answers
  and the orders in which the runtime iterates the collections returned. Two runs
  that differ in those orders alone make the same calls and leave the collaborator in
  the same state; both do not return, or both fail with the same error, or both
  succeed, and then both lists are made, identifier by identifier, from the same
  collections: for a range the records of all entries of its collection, in some
  order; for any other identifier the record of one entry of its collection. When
  every collection the collaborator returns has at most one entry, the two runs return
  the same list.
\<close>

theorem C8_runs_differ_in_iteration_order_only:
  "(case ParseValidators c validatorsStr stateID w of
      None \<Rightarrow> ParseValidators c validatorsStr stateID (w\<lparr>rand := r\<rparr>) = None
    | Some ((None, e), w1) \<Rightarrow>
        ParseValidators c validatorsStr stateID (w\<lparr>rand := r\<rparr>) =
          Some ((None, e), w1\<lparr>rand := r\<rparr>)
    | Some ((Some vs, e), w1) \<Rightarrow>
        (\<exists>segs segs'.
           vs = concat segs
           \<and> ParseValidators c validatorsStr stateID (w\<lparr>rand := r\<rparr>) =
               Some ((Some (concat segs'), e), w1\<lparr>rand := r\<rparr>)
           \<and> list_all2 drawn_from (ParseValidators_answers c stateID validatorsStr w) segs
           \<and> list_all2 drawn_from (ParseValidators_answers c stateID validatorsStr w) segs'
           \<and> map fst (ParseValidators_answers c stateID validatorsStr w) = validatorsStr))
   \<and> ((\<forall>p sid x m p'. Validators c p sid x = (Inr m, p') \<longrightarrow> length m \<le> 1)
        \<and> (\<forall>p sid x m p'. ValidatorsByPubKey c p sid x = (Inr m, p') \<longrightarrow> length m \<le> 1) \<longrightarrow>
      map_option fst (ParseValidators c validatorsStr stateID (w\<lparr>rand := r\<rparr>)) =
        map_option fst (ParseValidators c validatorsStr stateID w))
   \<and> ParseValidators_indexed c stateID validatorsStr 0 [] w =
       map_option (\<lambda>res. (res, validatorsStr)) (ParseValidators c validatorsStr stateID w)"
proof (intro conjI impI)
  note alike = ParseValidators_loop_ends_alike
    [where c = c and stateID = stateID and xs = validatorsStr and validators = "[]"
      and validators' = "[]" and w = w and r = r]
  show "case ParseValidators c validatorsStr stateID w of
      None \<Rightarrow> ParseValidators c validatorsStr stateID (w\<lparr>rand := r\<rparr>) = None
    | Some ((None, e), w1) \<Rightarrow>
        ParseValidators c validatorsStr stateID (w\<lparr>rand := r\<rparr>) =
          Some ((None, e), w1\<lparr>rand := r\<rparr>)
    | Some ((Some vs, e), w1) \<Rightarrow>
        (\<exists>segs segs'.
           vs = concat segs
           \<and> ParseValidators c validatorsStr stateID (w\<lparr>rand := r\<rparr>) =
               Some ((Some (concat segs'), e), w1\<lparr>rand := r\<rparr>)
           \<and> list_all2 drawn_from (ParseValidators_answers c stateID validatorsStr w) segs
           \<and> list_all2 drawn_from (ParseValidators_answers c stateID validatorsStr w) segs'
           \<and> map fst (ParseValidators_answers c stateID validatorsStr w) = validatorsStr)"
  proof (cases "ParseValidators_loop c stateID validatorsStr [] w")
    case None
    with alike show ?thesis by (simp add: ParseValidators_def)
  next
    case (Some a)
    obtain vs e w1 where a: "a = ((vs, e), w1)" by (metis surj_pair)
    from alike Some a obtain vs' where
      run: "ParseValidators_loop c stateID validatorsStr [] (w\<lparr>rand := r\<rparr>) =
          Some ((vs', e), w1\<lparr>rand := r\<rparr>)"
      and none: "(vs' = None) = (vs = None)"
      by auto
    show ?thesis
    proof (cases vs)
      case None
      with none run Some a show ?thesis by (simp add: ParseValidators_def)
    next
      case (Some l)
      with none obtain l' where l': "vs' = Some l'" by auto
      have "w\<lparr>rand := rand w\<rparr> = w" by simp
      with \<open>ParseValidators_loop c stateID validatorsStr [] w = Some a\<close> a Some
      have "ParseValidators_loop c stateID validatorsStr [] (w\<lparr>rand := rand w\<rparr>) =
          Some ((Some l, e), w1)"
        by simp
      from ParseValidators_loop_answers [OF this] obtain segs where
        s: "map fst (ParseValidators_answers c stateID validatorsStr w) = validatorsStr"
          "l = concat segs"
          "list_all2 drawn_from (ParseValidators_answers c stateID validatorsStr w) segs"
        by auto
      from ParseValidators_loop_answers [OF run [unfolded l']] obtain segs' where
        s': "l' = concat segs'"
          "list_all2 drawn_from (ParseValidators_answers c stateID validatorsStr w) segs'"
        by auto
      from s s' run l' have "\<exists>segs segs'.
           l = concat segs
           \<and> ParseValidators c validatorsStr stateID (w\<lparr>rand := r\<rparr>) =
               Some ((Some (concat segs'), e), w1\<lparr>rand := r\<rparr>)
           \<and> list_all2 drawn_from (ParseValidators_answers c stateID validatorsStr w) segs
           \<and> list_all2 drawn_from (ParseValidators_answers c stateID validatorsStr w) segs'
           \<and> map fst (ParseValidators_answers c stateID validatorsStr w) = validatorsStr"
        unfolding ParseValidators_def by blast
      with \<open>ParseValidators_loop c stateID validatorsStr [] w = Some a\<close> a Some
      show ?thesis by (simp add: ParseValidators_def)
    qed
  qed
next
  assume "(\<forall>p sid x m p'. Validators c p sid x = (Inr m, p') \<longrightarrow> length m \<le> 1)
        \<and> (\<forall>p sid x m p'. ValidatorsByPubKey c p sid x = (Inr m, p') \<longrightarrow> length m \<le> 1)"
  then have V: "\<forall>p sid x m p'. Validators c p sid x = (Inr m, p') \<longrightarrow> length m \<le> 1"
    and K: "\<forall>p sid x m p'. ValidatorsByPubKey c p sid x = (Inr m, p') \<longrightarrow> length m \<le> 1"
    by blast+
  show "map_option fst (ParseValidators c validatorsStr stateID (w\<lparr>rand := r\<rparr>)) =
        map_option fst (ParseValidators c validatorsStr stateID w)"
    by (simp add: ParseValidators_def ParseValidators_loop_small [OF V K]
        option.map_comp comp_def split_def)
next
  show "ParseValidators_indexed c stateID validatorsStr 0 [] w =
       map_option (\<lambda>res. (res, validatorsStr)) (ParseValidators c validatorsStr stateID w)"
    by (simp add: ParseValidators_indexed_loop ParseValidators_def)
qed

theorem C8_witness:
  "ParseValidators node [''1-2'', ''3''] ''head'' (world0 0) =
     Some ((Some [Some 101, Some 102, Some 103], None),
           \<lparr>calls = [IndexLookup ''head'' [1, 2], IndexLookup ''head'' [3]], pstate = 2,
              rand = (\<lambda>n. 0), iters = 2\<rparr>)
   \<and> ParseValidators node [''1-2'', ''3''] ''head'' ((world0 0)\<lparr>rand := (\<lambda>n. 1)\<rparr>) =
     Some ((Some [Some 102, Some 101, Some 103], None),
           \<lparr>calls = [IndexLookup ''head'' [1, 2], IndexLookup ''head'' [3]], pstate = 2,
              rand = (\<lambda>n. 1), iters = 2\<rparr>)
   \<and> ParseValidators_answers node ''head'' [''1-2'', ''3''] (world0 0) =
     [(''1-2'', [(1, Some 101), (2, Some 102)]), (''3'', [(3, Some 103)])]
   \<and> (\<exists>segs segs'.
         [Some 101, Some 102, Some 103] = concat segs
         \<and> [Some 102, Some 101, Some 103] = concat segs'
         \<and> list_all2 drawn_from
             [(''1-2'', [(1, Some 101), (2, Some (102 :: nat))]), (''3'', [(3, Some 103)])] segs
         \<and> list_all2 drawn_from
             [(''1-2'', [(1, Some 101), (2, Some (102 :: nat))]), (''3'', [(3, Some 103)])] segs')
   \<and> map_option fst (ParseValidators solo [''0-5'', ''1''] ''head'' ((world0 0)\<lparr>rand := (\<lambda>n. 7)\<rparr>)) =
       map_option fst (ParseValidators solo [''0-5'', ''1''] ''head'' (world0 0))
   \<and> map_option fst (ParseValidators solo [''0-5'', ''1''] ''head'' (world0 0)) =
       Some (Some [Some 101, Some 101], None)
   \<and> ParseValidators_indexed node ''head'' [''1-2'', ''3''] 0 [] (world0 0) =
     Some (((Some [Some 101, Some 102, Some 103], None),
            \<lparr>calls = [IndexLookup ''head'' [1, 2], IndexLookup ''head'' [3]], pstate = 2,
               rand = (\<lambda>n. 0), iters = 2\<rparr>),
           [''1-2'', ''3''])"
proof -
  have V: "\<forall>p sid x m p'. Validators solo p sid x = (Inr m, p') \<longrightarrow> length m \<le> 1"
    by (auto simp: solo_def)
  have K: "\<forall>p sid x m p'. ValidatorsByPubKey solo p sid x = (Inr m, p') \<longrightarrow> length m \<le> 1"
    by (auto simp: solo_def)
  note t1 = C8_runs_differ_in_iteration_order_only
    [where c = node and validatorsStr = "[''1-2'', ''3'']" and stateID = "''head''"
      and w = "world0 0" and r = "\<lambda>n. 1"]
  note t2 = C8_runs_differ_in_iteration_order_only
    [where c = solo and validatorsStr = "[''0-5'', ''1'']" and stateID = "''head''"
      and w = "world0 0" and r = "\<lambda>n. 7"]
  have run0: "ParseValidators node [''1-2'', ''3''] ''head'' (world0 0) =
     Some ((Some [Some 101, Some 102, Some 103], None),
           \<lparr>calls = [IndexLookup ''head'' [1, 2], IndexLookup ''head'' [3]], pstate = 2,
              rand = (\<lambda>n. 0), iters = 2\<rparr>)"
    by (simp add: ParseValidators_def ParseValidators_body_def ParseValidator_def
        ParseValidator_switch_def first_entry_def HasPrefix_def Contains_single Split.simps
        ParseUint_eval range_indices.simps node_eval)
  have run1: "ParseValidators node [''1-2'', ''3''] ''head'' ((world0 0)\<lparr>rand := (\<lambda>n. 1)\<rparr>) =
     Some ((Some [Some 102, Some 101, Some 103], None),
           \<lparr>calls = [IndexLookup ''head'' [1, 2], IndexLookup ''head'' [3]], pstate = 2,
              rand = (\<lambda>n. 1), iters = 2\<rparr>)"
    by (simp add: ParseValidators_def ParseValidators_body_def ParseValidator_def
        ParseValidator_switch_def first_entry_def HasPrefix_def Contains_single Split.simps
        ParseUint_eval range_indices.simps node_eval)
  have ans: "ParseValidators_answers node ''head'' [''1-2'', ''3''] (world0 0) =
     [(''1-2'', [(1, Some 101), (2, Some 102)]), (''3'', [(3, Some 103)])]"
    by (simp add: ParseValidators_lookup_def ParseValidator_switch_def HasPrefix_def
        Contains_single Split.simps ParseUint_eval range_indices.simps node_def node_table_def
        world0_def call_Validators_def)
  from t1 have "\<exists>segs segs'.
         [Some 101, Some 102, Some 103] = concat segs
         \<and> [Some 102, Some 101, Some 103] = concat segs'
         \<and> list_all2 drawn_from
             [(''1-2'', [(1, Some 101), (2, Some (102 :: nat))]), (''3'', [(3, Some 103)])] segs
         \<and> list_all2 drawn_from
             [(''1-2'', [(1, Some 101), (2, Some (102 :: nat))]), (''3'', [(3, Some 103)])] segs'"
    unfolding run0 run1 ans by auto
  moreover from t2 V K
  have "map_option fst (ParseValidators solo [''0-5'', ''1''] ''head'' ((world0 0)\<lparr>rand := (\<lambda>n. 7)\<rparr>)) =
       map_option fst (ParseValidators solo [''0-5'', ''1''] ''head'' (world0 0))"
    by blast
  moreover have "map_option fst (ParseValidators solo [''0-5'', ''1''] ''head'' (world0 0)) =
       Some (Some [Some 101, Some 101], None)"
    by (simp add: ParseValidators_def ParseValidators_body_def ParseValidator_def
        ParseValidator_switch_def first_entry_def HasPrefix_def Contains_single Split.simps
        ParseUint_eval range_indices.simps solo_def node_eval)
  moreover from t1 have "ParseValidators_indexed node ''head'' [''1-2'', ''3''] 0 [] (world0 0) =
     Some (((Some [Some 101, Some 102, Some 103], None),
            \<lparr>calls = [IndexLookup ''head'' [1, 2], IndexLookup ''head'' [3]], pstate = 2,
               rand = (\<lambda>n. 0), iters = 2\<rparr>),
           [''1-2'', ''3''])"
    unfolding run0 by simp
  ultimately show ?thesis using run0 run1 ans by (intro conjI)
qed

text \<open>
  C9. For a range \<open>low-high\<close> whose bounds parse and with \<open>low > high\<close> the index loop
  adds nothing, and the lookup is still made, once, with the empty index list. What the
  identifier contributes is what the provider returns for that list: the lookup's error
  makes the call fail, and every record of the collection returned is appended, in the
  order the \<open>range\<close> statement visits them.
\<close>

theorem C9_empty_range_still_looks_up:
  assumes "Contains s ''-''" and "Split s CHR ''-'' = [a, b]"
    and "ParseUint a = Inr low" and "ParseUint b = Inr high" and "high < low"
  shows "ParseValidators c [s] stateID w =
     (case Validators c (pstate w) stateID [] of
        (Inl err, p) \<Rightarrow>
          Some ((None, Some (Wrap err (''failed to obtain validators '' @ s))),
                w\<lparr>calls := calls w @ [IndexLookup stateID []], pstate := p\<rparr>)
      | (Inr m, p) \<Rightarrow>
          Some ((Some (map snd (map_order (rand w (iters w)) m)), None),
                w\<lparr>calls := calls w @ [IndexLookup stateID []], pstate := p,
                  iters := Suc (iters w)\<rparr>))"
proof -
  from assms(5) have "range_indices low high [] = Some []" by (rule range_indices_empty)
  from ParseValidators_body_range [OF assms(1-4) this, of c stateID w]
  show ?thesis
    by (simp add: ParseValidators_single split: prod.splits sum.splits)
qed

theorem C9_witness:
  "Contains ''5-3'' ''-'' \<and> Split ''5-3'' CHR ''-'' = [''5'', ''3'']
   \<and> ParseUint ''5'' = Inr 5 \<and> ParseUint ''3'' = Inr 3 \<and> (3 :: uint64) < 5
   \<and> ParseValidators node [''5-3''] ''head'' (world0 0) =
       Some ((Some [Some 101, Some 102, Some 103], None),
             \<lparr>calls = [IndexLookup ''head'' []], pstate = 1, rand = (\<lambda>n. 0), iters = 1\<rparr>)"
proof -
  have h1: "Contains ''5-3'' ''-''" by (simp add: Contains_single)
  have h2: "Split ''5-3'' CHR ''-'' = [''5'', ''3'']" by (simp add: Split.simps)
  have h3: "ParseUint ''5'' = Inr 5" by (simp add: ParseUint_eval)
  have h4: "ParseUint ''3'' = Inr 3" by (simp add: ParseUint_eval)
  have h5: "(3 :: uint64) < 5" by simp
  from C9_empty_range_still_looks_up [OF h1 h2 h3 h4 h5, of node "''head''" "world0 0"]
  have "ParseValidators node [''5-3''] ''head'' (world0 0) =
       Some ((Some [Some 101, Some 102, Some 103], None),
             \<lparr>calls = [IndexLookup ''head'' []], pstate = 1, rand = (\<lambda>n. 0), iters = 1\<rparr>)"
    by (simp add: node_eval Let_def)
  with h1 h2 h3 h4 h5 show ?thesis by simp
qed

text \<open>
  C10. The input collector of the shared wallet import fails exactly when something it
  needs is missing, and the checks come in a fixed order, the first that fails giving
  the error: a \<open>remote\<close> option that is set, then a \<open>timeout\<close> of zero, then a \<open>file\<close>
  option that is empty, then a file that cannot be read, then an empty list of
  \<open>shares\<close>. Otherwise it returns the data with the configured timeout and flags, the
  bytes of the file and the shares, which are not empty.
\<close>

theorem C10_input_checks_in_order:
  "(GetString v ''remote'' \<noteq> [] \<longrightarrow>
      input v ReadFile = (None, Some (New ''wallet import not available for remote wallets'')))
   \<and> (GetString v ''remote'' = [] \<and> GetDuration v ''timeout'' = 0 \<longrightarrow>
      input v ReadFile = (None, Some (New ''timeout is required'')))
   \<and> (GetString v ''remote'' = [] \<and> GetDuration v ''timeout'' \<noteq> 0
        \<and> GetString v ''file'' = [] \<longrightarrow>
      input v ReadFile = (None, Some (New ''file is required'')))
   \<and> (GetString v ''remote'' = [] \<and> GetDuration v ''timeout'' \<noteq> 0
        \<and> GetString v ''file'' \<noteq> [] \<and> ReadFile (GetString v ''file'') = Inl err \<longrightarrow>
      input v ReadFile = (None, Some (Wrap err ''failed to read wallet import file'')))
   \<and> (GetString v ''remote'' = [] \<and> GetDuration v ''timeout'' \<noteq> 0
        \<and> GetString v ''file'' \<noteq> [] \<and> ReadFile (GetString v ''file'') = Inr contents
        \<and> GetStringSlice v ''shares'' = [] \<longrightarrow>
      input v ReadFile = (None, Some (New ''failed to obtain shares'')))
   \<and> (GetString v ''remote'' = [] \<and> GetDuration v ''timeout'' \<noteq> 0
        \<and> GetString v ''file'' \<noteq> [] \<and> ReadFile (GetString v ''file'') = Inr contents
        \<and> GetStringSlice v ''shares'' \<noteq> [] \<longrightarrow>
      input v ReadFile =
        (Some \<lparr>timeout = GetDuration v ''timeout'', quiet = GetBool v ''quiet'',
                verbose = GetBool v ''verbose'', debug = GetBool v ''debug'',
                file = contents, shares = GetStringSlice v ''shares''\<rparr>, None))
   \<and> ((snd (input v ReadFile) \<noteq> None) =
        (GetString v ''remote'' \<noteq> [] \<or> GetDuration v ''timeout'' = 0
         \<or> GetString v ''file'' = [] \<or> (\<exists>e. ReadFile (GetString v ''file'') = Inl e)
         \<or> GetStringSlice v ''shares'' = []))
   \<and> ((fst (input v ReadFile) = None) = (snd (input v ReadFile) \<noteq> None))"
proof -
  have 1: "GetString v ''remote'' \<noteq> [] \<longrightarrow>
      input v ReadFile = (None, Some (New ''wallet import not available for remote wallets''))"
    by (simp add: input_def)
  have 2: "GetString v ''remote'' = [] \<and> GetDuration v ''timeout'' = 0 \<longrightarrow>
      input v ReadFile = (None, Some (New ''timeout is required''))"
    by (simp add: input_def)
  have 3: "GetString v ''remote'' = [] \<and> GetDuration v ''timeout'' \<noteq> 0
        \<and> GetString v ''file'' = [] \<longrightarrow>
      input v ReadFile = (None, Some (New ''file is required''))"
    by (simp add: input_def)
  have 4: "GetString v ''remote'' = [] \<and> GetDuration v ''timeout'' \<noteq> 0
        \<and> GetString v ''file'' \<noteq> [] \<and> ReadFile (GetString v ''file'') = Inl err \<longrightarrow>
      input v ReadFile = (None, Some (Wrap err ''failed to read wallet import file''))"
    by (simp add: input_def)
  have 5: "GetString v ''remote'' = [] \<and> GetDuration v ''timeout'' \<noteq> 0
        \<and> GetString v ''file'' \<noteq> [] \<and> ReadFile (GetString v ''file'') = Inr contents
        \<and> GetStringSlice v ''shares'' = [] \<longrightarrow>
      input v ReadFile = (None, Some (New ''failed to obtain shares''))"
    by (simp add: input_def)
  have 6: "GetString v ''remote'' = [] \<and> GetDuration v ''timeout'' \<noteq> 0
        \<and> GetString v ''file'' \<noteq> [] \<and> ReadFile (GetString v ''file'') = Inr contents
        \<and> GetStringSlice v ''shares'' \<noteq> [] \<longrightarrow>
      input v ReadFile =
        (Some \<lparr>timeout = GetDuration v ''timeout'', quiet = GetBool v ''quiet'',
                verbose = GetBool v ''verbose'', debug = GetBool v ''debug'',
                file = contents, shares = GetStringSlice v ''shares''\<rparr>, None)"
    by (simp add: input_def zero_dataIn_def)
  have 7: "(snd (input v ReadFile) \<noteq> None) =
        (GetString v ''remote'' \<noteq> [] \<or> GetDuration v ''timeout'' = 0
         \<or> GetString v ''file'' = [] \<or> (\<exists>e. ReadFile (GetString v ''file'') = Inl e)
         \<or> GetStringSlice v ''shares'' = [])"
    by (cases "ReadFile (GetString v ''file'')") (simp_all add: input_def Let_def)
  have 8: "(fst (input v ReadFile) = None) = (snd (input v ReadFile) \<noteq> None)"
    by (cases "ReadFile (GetString v ''file'')") (simp_all add: input_def Let_def)
  from 1 2 3 4 5 6 7 8 show ?thesis by (intro conjI)
qed

theorem C10_witness:
  "input (viper0\<lparr>GetString := (\<lambda>k. if k = ''remote'' then ''host:12345'' else [])\<rparr>) files0 =
      (None, Some (New ''wallet import not available for remote wallets''))
   \<and> input (viper0\<lparr>GetDuration := (\<lambda>k. 0)\<rparr>) files0 = (None, Some (New ''timeout is required''))
   \<and> input (viper0\<lparr>GetString := (\<lambda>k. [])\<rparr>) files0 = (None, Some (New ''file is required''))
   \<and> input (viper0\<lparr>GetString := (\<lambda>k. if k = ''file'' then ''lost.dat'' else [])\<rparr>) files0 =
      (None, Some (Wrap (New ''no such file'') ''failed to read wallet import file''))
   \<and> input (viper0\<lparr>GetStringSlice := (\<lambda>k. [])\<rparr>) files0 =
      (None, Some (New ''failed to obtain shares''))
   \<and> input viper0 files0 =
      (Some \<lparr>timeout = 30000000000, quiet = False, verbose = True, debug = False,
              file = [1, 2, 3], shares = [''share1'', ''share2'']\<rparr>, None)"
proof -
  let ?remote = "viper0\<lparr>GetString := (\<lambda>k. if k = ''remote'' then ''host:12345'' else [])\<rparr>"
  let ?notime = "viper0\<lparr>GetDuration := (\<lambda>k. 0)\<rparr>"
  let ?nofile = "viper0\<lparr>GetString := (\<lambda>k. [])\<rparr>"
  let ?lost = "viper0\<lparr>GetString := (\<lambda>k. if k = ''file'' then ''lost.dat'' else [])\<rparr>"
  let ?noshares = "viper0\<lparr>GetStringSlice := (\<lambda>k. [])\<rparr>"
  have r1: "input ?remote files0 =
      (None, Some (New ''wallet import not available for remote wallets''))"
    using C10_input_checks_in_order [of ?remote files0] by (simp add: viper0_def)
  have r2: "input ?notime files0 = (None, Some (New ''timeout is required''))"
    using C10_input_checks_in_order [of ?notime files0] by (simp add: viper0_def)
  have r3: "input ?nofile files0 = (None, Some (New ''file is required''))"
    using C10_input_checks_in_order [of ?nofile files0] by (simp add: viper0_def)
  have r4: "input ?lost files0 =
      (None, Some (Wrap (New ''no such file'') ''failed to read wallet import file''))"
    using C10_input_checks_in_order [of ?lost files0 "New ''no such file''"]
    by (simp add: viper0_def files0_def)
  have r5: "input ?noshares files0 = (None, Some (New ''failed to obtain shares''))"
    using C10_input_checks_in_order [of ?noshares files0 _ "[1, 2, 3]"]
    by (simp add: viper0_def files0_def)
  have r6: "input viper0 files0 =
      (Some \<lparr>timeout = 30000000000, quiet = False, verbose = True, debug = False,
              file = [1, 2, 3], shares = [''share1'', ''share2'']\<rparr>, None)"
    using C10_input_checks_in_order [of viper0 files0 _ "[1, 2, 3]"]
    by (simp add: viper0_def files0_def)
  from r1 r2 r3 r4 r5 r6 show ?thesis by (intro conjI)
qed

end
